theory Spec2Isabelle
  imports Complex_Main
begin

section \<open>Satellite imagery utilities: the model\<close>

text \<open>
  A shallow embedding of the three computational functions of \<^verbatim>\<open>satellite_utils.py\<close>:
  \<^verbatim>\<open>get_square_around_point\<close>, \<^verbatim>\<open>get_bbox_of_given_size\<close> and \<^verbatim>\<open>get_field_pixels\<close>.

  Numbers. There are two models of the arithmetic. In the exact model Python floats and
  numpy float64 values are idealised as real numbers and every operation is exact; it
  serves where rounding does not decide the property at hand. In the float64 model
  (the functions with the suffix \<open>_f64\<close>, further down) every operation rounds its exact
  result to the nearest IEEE 754 binary64 value, as the code's arithmetic does; it
  serves where rounding decides. Python integers are \<open>int\<close>, array sizes and indices
  are \<open>nat\<close>.

  Errors. An exception is a value of \<open>py_error\<close>, and a function that can raise returns
  \<open>py_error + 'a\<close> with \<open>Inl\<close> for the exception.
\<close>

datatype py_error = IndexError | ValueError | ZeroDivisionError | OverflowError

subsection \<open>Division in numpy and in Python\<close>

text \<open>
  The quotient \<^verbatim>\<open>half_side / (m_to_deg * np.cos(np.deg2rad(lat)))\<close> has a numpy float64
  divisor, so the division is numpy's: it never raises. When its divisor is 0 it emits
  a \<^verbatim>\<open>RuntimeWarning\<close> and yields \<^verbatim>\<open>inf\<close> or \<^verbatim>\<open>nan\<close>; and where the exact divisor is 0
  the rounded float64 divisor can be a tiny non-zero number and the quotient a huge finite
  one. No real number is the idealisation of such a result: \<open>Undetermined\<close> stands for
  it, a float64 value that this model does not fix. \<open>Num r\<close> is a float64 value idealised
  as the real \<open>r\<close>.
\<close>

datatype np_float = Num real | Undetermined

definition np_div :: "real \<Rightarrow> real \<Rightarrow> np_float" where
  "np_div a b = (if b = 0 then Undetermined else Num (a / b))"

fun np_sub :: "real \<Rightarrow> np_float \<Rightarrow> np_float" where
  "np_sub a (Num b) = Num (a - b)"
| "np_sub a Undetermined = Undetermined"

fun np_add :: "real \<Rightarrow> np_float \<Rightarrow> np_float" where
  "np_add a (Num b) = Num (a + b)"
| "np_add a Undetermined = Undetermined"

text \<open>
  A Python float divided by a Python int is Python's own division: it raises
  \<^verbatim>\<open>ZeroDivisionError\<close> when the divisor is 0.
\<close>

definition py_div :: "real \<Rightarrow> int \<Rightarrow> py_error + real" where
  "py_div a b = (if b = 0 then Inl ZeroDivisionError else Inr (a / real_of_int b))"

subsection \<open>\<^verbatim>\<open>get_square_around_point\<close>\<close>

definition m_to_deg :: real where
  "m_to_deg = 111111"

text \<open>\<^verbatim>\<open>np.deg2rad\<close>: degrees to radians.\<close>

definition deg2rad :: "real \<Rightarrow> real" where
  "deg2rad d = d * pi / 180"

text \<open>
  The function has no \<^verbatim>\<open>raise\<close> and none of its operations raises on floats, so its
  result is always \<open>Inr\<close> of the four-element list
  \<^verbatim>\<open>[x_min, y_min, x_max, y_max]\<close>. The latitude bounds divide by the constant
  \<open>m_to_deg\<close> only. (The one exception of the code, the \<^verbatim>\<open>OverflowError\<close> of \<^verbatim>\<open>m / 2\<close> for
  an integer \<open>m\<close> beyond the float64 range, belongs to the float64 model below.)
\<close>

definition get_square_around_point :: "real \<Rightarrow> real \<Rightarrow> real \<Rightarrow> py_error + np_float list" where
  "get_square_around_point lon lat m =
     (let half_side = m / 2;
          x_min = np_sub lon (np_div half_side (m_to_deg * cos (deg2rad lat)));
          x_max = np_add lon (np_div half_side (m_to_deg * cos (deg2rad lat)));
          y_min = lat - half_side / m_to_deg;
          y_max = lat + half_side / m_to_deg
      in Inr [x_min, Num y_min, x_max, Num y_max])"

subsection \<open>Bounding boxes\<close>

text \<open>
  The attributes \<^verbatim>\<open>min_x\<close>, \<^verbatim>\<open>min_y\<close>, \<^verbatim>\<open>max_x\<close>, \<^verbatim>\<open>max_y\<close> that
  \<^verbatim>\<open>get_field_pixels\<close> reads from its \<^verbatim>\<open>bbox\<close> argument.
\<close>

record bbox =
  min_x :: real
  min_y :: real
  max_x :: real
  max_y :: real

text \<open>
  Modelled from the spec: the class \<^verbatim>\<open>BBox\<close> of the sentinelhub package is not part of
  the repository. The spec's data model gives a BoundingBox as
  (min_lon, min_lat, max_lon, max_lat) in decimal degrees with the invariant
  \<open>min \<le> max\<close> on each axis; the constructor takes two corners and establishes the
  invariant by storing the smaller coordinate of each axis as the minimum and the
  larger as the maximum.
\<close>

definition BBox :: "real \<times> real \<times> real \<times> real \<Rightarrow> bbox" where
  "BBox c = (case c of (x_fst, y_fst, x_snd, y_snd) \<Rightarrow>
               \<lparr>min_x = min x_fst x_snd, min_y = min y_fst y_snd,
                max_x = max x_fst x_snd, max_y = max y_fst y_snd\<rparr>)"

subsection \<open>\<^verbatim>\<open>get_bbox_of_given_size\<close>\<close>

text \<open>
  A coordinate of the list \<open>coords\<close> is a Python float or a numpy float64 scalar (the
  longitudes that \<^verbatim>\<open>get_square_around_point\<close> returns are numpy scalars, its latitudes
  Python floats). The kind decides which division \<^verbatim>\<open>... / box_size[k]\<close> is: the
  difference \<^verbatim>\<open>x_max - x_min\<close> and its product with the integer \<^verbatim>\<open>pix[k]\<close> are numpy
  scalars as soon as one of the two coordinates is.
\<close>

datatype pyfloat = PyFloat real | NpFloat64 real

fun float_value :: "pyfloat \<Rightarrow> real" where
  "float_value (PyFloat a) = a"
| "float_value (NpFloat64 a) = a"

fun is_numpy :: "pyfloat \<Rightarrow> bool" where
  "is_numpy (PyFloat a) = False"
| "is_numpy (NpFloat64 a) = True"

text \<open>
  A float divided by an integer: numpy's division for a numpy scalar (no exception,
  no meaningful value when the divisor is 0), Python's for a Python float
  (\<^verbatim>\<open>ZeroDivisionError\<close> when the divisor is 0).
\<close>

definition float_div_int :: "bool \<Rightarrow> real \<Rightarrow> int \<Rightarrow> py_error + np_float" where
  "float_div_int numpy a b =
     (if numpy then Inr (np_div a (real_of_int b))
      else (case py_div a b of Inl e \<Rightarrow> Inl e | Inr q \<Rightarrow> Inr (Num q)))"

text \<open>
  What the function returns: a box, or the result of calling the constructor with a
  coordinate that is not a finite number, which is not modelled further.
\<close>

datatype 'box snapped = Box 'box | BoxOfNonFinite

text \<open>
  The two library calls are parameters: \<open>mk_BBox\<close> is the constructor
  \<^verbatim>\<open>BBox(bbox=[...], crs=CRS.WGS84)\<close> and \<open>bbox_to_dimensions\<close> the pixel dimensions of a
  box at a resolution. \<open>coords\<close> is unpacked into four names (\<^verbatim>\<open>ValueError\<close> for any
  other length); \<open>pix\<close> is a pair of integers. The quotient for \<open>x\<close> is computed before
  the quotient for \<open>y\<close>.
\<close>

definition get_bbox_of_given_size ::
  "(real \<times> real \<times> real \<times> real \<Rightarrow> 'box) \<Rightarrow> ('box \<Rightarrow> 'res \<Rightarrow> int \<times> int) \<Rightarrow>
     pyfloat list \<Rightarrow> int \<times> int \<Rightarrow> 'res \<Rightarrow> py_error + 'box snapped" where
  "get_bbox_of_given_size mk_BBox bbox_to_dimensions coords pix resolution =
     (case coords of
        [x_min, y_min, x_max, y_max] \<Rightarrow>
          (let box = mk_BBox (float_value x_min, float_value y_min,
                              float_value x_max, float_value y_max);
               box_size = bbox_to_dimensions box resolution
           in if box_size = pix then Inr (Box box)
              else
                (case float_div_int (is_numpy x_max \<or> is_numpy x_min)
                        ((float_value x_max - float_value x_min) * real_of_int (fst pix))
                        (fst box_size) of
                   Inl e \<Rightarrow> Inl e
                 | Inr qx \<Rightarrow>
                     (case float_div_int (is_numpy y_max \<or> is_numpy y_min)
                             ((float_value y_max - float_value y_min) * real_of_int (snd pix))
                             (snd box_size) of
                        Inl e \<Rightarrow> Inl e
                      | Inr qy \<Rightarrow>
                          (case (np_add (float_value x_min) qx, np_add (float_value y_min) qy) of
                             (Num x_max', Num y_max') \<Rightarrow>
                               Inr (Box (mk_BBox (float_value x_min, float_value y_min,
                                                  x_max', y_max')))
                           | _ \<Rightarrow> Inr BoxOfNonFinite))))
      | _ \<Rightarrow> Inl ValueError)"

text \<open>
  A dimension function is monotonic in the box extent at a resolution when a box that is
  at least as wide and at least as high gets at least as many pixels on each axis.
\<close>

definition monotonic_in_extent :: "(bbox \<Rightarrow> 'res \<Rightarrow> int \<times> int) \<Rightarrow> 'res \<Rightarrow> bool" where
  "monotonic_in_extent dims r \<longleftrightarrow>
     (\<forall>b b'. max_x b - min_x b \<le> max_x b' - min_x b' \<and> max_y b - min_y b \<le> max_y b' - min_y b'
        \<longrightarrow> fst (dims b r) \<le> fst (dims b' r) \<and> snd (dims b r) \<le> snd (dims b' r))"

text \<open>
  A sample dimension function, for concrete runs: the extent of the box on each axis in
  metres, at \<open>m_to_deg\<close> metres to the degree as for a small box at the equator, divided
  by the resolution in metres and rounded to the nearest integer, the way the library
  rounds the extent of the projected box. A box narrower than half the resolution gets
  0 pixels. The function is monotonic in the box extent at every positive resolution.
\<close>

definition round_dimensions :: "bbox \<Rightarrow> real \<Rightarrow> int \<times> int" where
  "round_dimensions b r =
     (round ((max_x b - min_x b) * m_to_deg / r), round ((max_y b - min_y b) * m_to_deg / r))"

subsection \<open>\<^verbatim>\<open>get_field_pixels\<close>\<close>

text \<open>
  A numpy array is its shape and its elements in row-major order. Of the image only the
  shape is read. The mask is two-dimensional: element \<open>(i, j)\<close> is at position
  \<open>i * shape ! 1 + j\<close>.
\<close>

record 'a ndarray =
  shape :: "nat list"
  elems :: "'a list"

text \<open>
  \<^verbatim>\<open>np.zeros((r, c), dtype=np.bool)\<close>: every element is \<open>False\<close>. (\<^verbatim>\<open>np.bool\<close> is
  read as the boolean element type, as in the numpy versions that define the name.)
\<close>

definition zeros :: "nat \<times> nat \<Rightarrow> bool ndarray" where
  "zeros s = \<lparr>shape = [fst s, snd s], elems = replicate (fst s * snd s) False\<rparr>"

text \<open>\<^verbatim>\<open>np.ndindex(shape)\<close>: all index pairs, the last index varying fastest.\<close>

definition ndindex :: "nat \<times> nat \<Rightarrow> (nat \<times> nat) list" where
  "ndindex s = concat (map (\<lambda>i. map (\<lambda>j. (i, j)) [0..<snd s]) [0..<fst s])"

text \<open>
  \<^verbatim>\<open>a[i, j] = v\<close> and \<^verbatim>\<open>a[i, j]\<close>. The loop writes only at the indices that
  \<^verbatim>\<open>np.ndindex(mask.shape)\<close> yields, which are in range (lemma \<open>set_ndindex\<close> below), so
  the \<^verbatim>\<open>IndexError\<close> of an index out of range has no branch here.
\<close>

definition setitem :: "'a ndarray \<Rightarrow> nat \<times> nat \<Rightarrow> 'a \<Rightarrow> 'a ndarray" where
  "setitem a ij v = a\<lparr>elems := (elems a)[fst ij * (shape a ! 1) + snd ij := v]\<rparr>"

definition getitem :: "'a ndarray \<Rightarrow> nat \<times> nat \<Rightarrow> 'a" where
  "getitem a ij = elems a ! (fst ij * (shape a ! 1) + snd ij)"

text \<open>
  The loop \<^verbatim>\<open>for i,j in np.ndindex(mask.shape)\<close>, as a recursion over the index pairs
  still to visit. \<open>contains\<close> is the containment test of the polygon library
  (\<^verbatim>\<open>field.contains(p)\<close>), a parameter: a total test without effects. A point is a
  pair \<open>(x, y)\<close>. The divisors
  \<open>2 * n_x\<close> and \<open>2 * n_y\<close> are Python integers; inside the loop they are positive,
  because an index pair exists only when both sizes are.
\<close>

fun field_loop ::
  "('p \<Rightarrow> real \<times> real \<Rightarrow> bool) \<Rightarrow> 'p \<Rightarrow> bbox \<Rightarrow> real \<Rightarrow> real \<Rightarrow> nat \<Rightarrow> nat \<Rightarrow>
     (nat \<times> nat) list \<Rightarrow> bool ndarray \<Rightarrow> bool ndarray" where
  "field_loop contains field bbox x_len y_len n_x n_y [] mask' = mask'"
| "field_loop contains field bbox x_len y_len n_x n_y ((i, j) # rest) mask' =
     (let x = min_x bbox + real (2 * i + 1) * x_len / real (2 * n_x);
          y = min_y bbox + real (2 * j + 1) * y_len / real (2 * n_y);
          p = (x, y)
      in field_loop contains field bbox x_len y_len n_x n_y rest
           (setitem mask' (i, j) (contains field p)))"

text \<open>
  \<^verbatim>\<open>img.shape[0]\<close> and \<^verbatim>\<open>img.shape[1]\<close> raise \<^verbatim>\<open>IndexError\<close> on an array of fewer than
  two dimensions.
\<close>

definition get_field_pixels ::
  "('p \<Rightarrow> real \<times> real \<Rightarrow> bool) \<Rightarrow> 'a ndarray \<Rightarrow> bbox \<Rightarrow> 'p \<Rightarrow> py_error + bool ndarray" where
  "get_field_pixels contains img bbox field =
     (if length (shape img) < 2 then Inl IndexError
      else
        let mask' = zeros (shape img ! 0, shape img ! 1);
            n_x = shape mask' ! 0;
            n_y = shape mask' ! 1;
            x_len = max_x bbox - min_x bbox;
            y_len = max_y bbox - min_y bbox
        in Inr (field_loop contains field bbox x_len y_len n_x n_y
                  (ndindex (n_x, n_y)) mask'))"

text \<open>
  The centre of pixel \<open>(i, j)\<close> of an \<open>(n_x, n_y)\<close> grid over the box, as the loop body
  computes it.
\<close>

definition pixel_center :: "bbox \<Rightarrow> nat \<times> nat \<Rightarrow> nat \<times> nat \<Rightarrow> real \<times> real" where
  "pixel_center bbox s ij =
     (min_x bbox + real (2 * fst ij + 1) * (max_x bbox - min_x bbox) / real (2 * fst s),
      min_y bbox + real (2 * snd ij + 1) * (max_y bbox - min_y bbox) / real (2 * snd s))"

text \<open>
  The simplest polygon, for concrete runs: an axis-parallel rectangle given by its
  corners, with the containment test of the polygon library, which holds for the points
  of the interior and for none of the boundary.
\<close>

definition rect_contains :: "bbox \<Rightarrow> real \<times> real \<Rightarrow> bool" where
  "rect_contains r p \<longleftrightarrow>
     min_x r < fst p \<and> fst p < max_x r \<and> min_y r < snd p \<and> snd p < max_y r"

text \<open>
  A polygon covers the extent of a box when it contains every point of the interior of
  the box; it lies outside the box when it contains no point of the closed box.
\<close>

definition covers_extent :: "('p \<Rightarrow> real \<times> real \<Rightarrow> bool) \<Rightarrow> 'p \<Rightarrow> bbox \<Rightarrow> bool" where
  "covers_extent contains field b \<longleftrightarrow>
     (\<forall>x y. min_x b < x \<and> x < max_x b \<and> min_y b < y \<and> y < max_y b \<longrightarrow> contains field (x, y))"

definition outside_extent :: "('p \<Rightarrow> real \<times> real \<Rightarrow> bool) \<Rightarrow> 'p \<Rightarrow> bbox \<Rightarrow> bool" where
  "outside_extent contains field b \<longleftrightarrow>
     (\<forall>x y. min_x b \<le> x \<and> x \<le> max_x b \<and> min_y b \<le> y \<and> y \<le> max_y b
        \<longrightarrow> \<not> contains field (x, y))"

section \<open>The float64 model\<close>

subsection \<open>Rounding to the nearest binary64 value\<close>

text \<open>
  Rounding to the nearest integer, a tie going to the even one.
\<close>

definition round_half_even :: "real \<Rightarrow> int" where
  "round_half_even y =
     (let f = \<lfloor>y\<rfloor>; d = y - of_int f
      in if d < 1 / 2 then f else if 1 / 2 < d then f + 1 else if even f then f else f + 1)"

text \<open>
  A binary64 value is an integer of at most 53 bits times a power of two. The exponent
  of the power for a real \<open>x\<close> is 52 below the binary exponent of \<open>x\<close>, and never less
  than -1074 (the subnormal range). \<open>f64_nearest x\<close> is the multiple of that power
  nearest to \<open>x\<close>, ties to even: the value that round-to-nearest gives before the check
  for overflow.
\<close>

definition f64_exponent :: "real \<Rightarrow> int" where
  "f64_exponent x = max \<lfloor>log 2 \<bar>x\<bar>\<rfloor> (- 1022) - 52"

definition f64_nearest :: "real \<Rightarrow> real" where
  "f64_nearest x =
     (if x = 0 then 0
      else of_int (round_half_even (x / 2 powr of_int (f64_exponent x)))
             * 2 powr of_int (f64_exponent x))"

text \<open>
  A float64 is a finite number, an infinity or not a number. The two zeros are not
  told apart: the only place where the sign of a zero shows is a division by it, and
  the divisors of the functions below are products and conversions of positive numbers.
\<close>

datatype float64 = Fin real | PosInf | NegInf | NaN

text \<open>
  \<open>f64_huge\<close> is the least magnitude that overflows, \<open>f64_tiny\<close> the least positive
  binary64 value.
\<close>

definition f64_huge :: real where
  "f64_huge = 2 ^ 1024"

definition f64_tiny :: real where
  "f64_tiny = 1 / 2 ^ 1074"

text \<open>The float64 that an exact result rounds to: an infinity when the rounded value overflows.\<close>

definition f64 :: "real \<Rightarrow> float64" where
  "f64 x =
     (let y = f64_nearest x
      in if f64_huge \<le> y then PosInf else if y \<le> - f64_huge then NegInf else Fin y)"

text \<open>A real number is a float64 when rounding leaves it as it is.\<close>

definition is_f64 :: "real \<Rightarrow> bool" where
  "is_f64 x \<longleftrightarrow> f64 x = Fin x"

text \<open>
  The arithmetic of IEEE 754: the exact result of finite operands is rounded; the
  infinities and not-a-number follow the standard's rules. A finite non-zero number
  divided by zero is an infinity (numpy warns and does not raise).
\<close>

fun f64_neg :: "float64 \<Rightarrow> float64" where
  "f64_neg (Fin a) = Fin (- a)"
| "f64_neg PosInf = NegInf"
| "f64_neg NegInf = PosInf"
| "f64_neg NaN = NaN"

fun f64_add :: "float64 \<Rightarrow> float64 \<Rightarrow> float64" where
  "f64_add (Fin a) (Fin b) = f64 (a + b)"
| "f64_add NaN b = NaN"
| "f64_add a NaN = NaN"
| "f64_add PosInf NegInf = NaN"
| "f64_add NegInf PosInf = NaN"
| "f64_add PosInf b = PosInf"
| "f64_add a PosInf = PosInf"
| "f64_add NegInf b = NegInf"
| "f64_add a NegInf = NegInf"

definition f64_sub :: "float64 \<Rightarrow> float64 \<Rightarrow> float64" where
  "f64_sub a b = f64_add a (f64_neg b)"


fun f64_div :: "float64 \<Rightarrow> float64 \<Rightarrow> float64" where
  "f64_div (Fin a) (Fin b) =
     (if b = 0 then (if a = 0 then NaN else if 0 < a then PosInf else NegInf) else f64 (a / b))"
| "f64_div NaN b = NaN"
| "f64_div a NaN = NaN"
| "f64_div (Fin a) PosInf = Fin 0"
| "f64_div (Fin a) NegInf = Fin 0"
| "f64_div PosInf (Fin b) = (if 0 \<le> b then PosInf else NegInf)"
| "f64_div NegInf (Fin b) = (if 0 \<le> b then NegInf else PosInf)"
| "f64_div a b = NaN"

text \<open>The comparisons \<open>\<le>\<close> and \<open><\<close> of float64 values: false when an operand is not a number.\<close>

fun f64_le :: "float64 \<Rightarrow> float64 \<Rightarrow> bool" where
  "f64_le (Fin a) (Fin b) \<longleftrightarrow> a \<le> b"
| "f64_le NaN b \<longleftrightarrow> False"
| "f64_le a NaN \<longleftrightarrow> False"
| "f64_le NegInf b \<longleftrightarrow> True"
| "f64_le a PosInf \<longleftrightarrow> True"
| "f64_le a b \<longleftrightarrow> False"

definition f64_less :: "float64 \<Rightarrow> float64 \<Rightarrow> bool" where
  "f64_less a b \<longleftrightarrow> f64_le a b \<and> a \<noteq> b"

subsection \<open>\<^verbatim>\<open>get_square_around_point\<close> in float64\<close>

text \<open>
  The function of lines 32 to 39 with the rounding of each operation. The arguments
  are Python numbers, converted to float64 where the arithmetic needs it:
  \<^item> \<^verbatim>\<open>m / 2\<close> is Python's true division; it gives the quotient rounded to float64, for
    an integer \<open>m\<close> as for a float, and raises \<^verbatim>\<open>OverflowError\<close> when an integer quotient
    is beyond the float64 range (a float \<open>m\<close> never is);
  \<^item> \<^verbatim>\<open>np.deg2rad\<close> and \<^verbatim>\<open>np.cos\<close> are numpy's and are parameters: functions from a
    float64 to a float64;
  \<^item> \<^verbatim>\<open>m_to_deg * ...\<close>, the division by it and \<^verbatim>\<open>lon - ...\<close>, \<^verbatim>\<open>lon + ...\<close> are numpy
    float64 operations, which never raise;
  \<^item> \<^verbatim>\<open>half_side / m_to_deg\<close> divides a Python float by the non-zero integer 111111.
\<close>

definition get_square_around_point_f64 ::
  "(real \<Rightarrow> real) \<Rightarrow> (real \<Rightarrow> real) \<Rightarrow> real \<Rightarrow> real \<Rightarrow> real \<Rightarrow> py_error + float64 list" where
  "get_square_around_point_f64 np_deg2rad np_cos lon lat m =
     (case f64 (m / 2) of
        Fin half_side \<Rightarrow>
          (let x_min = f64_sub (f64 lon)
                 (f64_div (Fin half_side) (f64 (m_to_deg * np_cos (np_deg2rad lat))));
               x_max = f64_add (f64 lon)
                 (f64_div (Fin half_side) (f64 (m_to_deg * np_cos (np_deg2rad lat))));
               y_min = f64_sub (f64 lat) (f64 (half_side / m_to_deg));
               y_max = f64_add (f64 lat) (f64 (half_side / m_to_deg))
           in Inr [x_min, y_min, x_max, y_max])
      | _ \<Rightarrow> Inl OverflowError)"

text \<open>
  Sample library functions, for concrete runs: the conversion to radians as the product
  with the float64 nearest to \<open>pi / 180\<close>, and a cosine that is rounded correctly.
\<close>

definition deg2rad_f64 :: "real \<Rightarrow> real" where
  "deg2rad_f64 d = f64_nearest (d * f64_nearest (pi / 180))"

definition cos_f64 :: "real \<Rightarrow> real" where
  "cos_f64 x = f64_nearest (cos x)"

subsection \<open>\<^verbatim>\<open>get_field_pixels\<close> in float64\<close>







section \<open>Auxiliary facts\<close>

subsection \<open>The cosine of a latitude\<close>

lemma cos_deg2rad_pos:
  assumes "- 90 < lat" and "lat < 90"
  shows "0 < cos (deg2rad lat)"
proof -
  have "pi * (- 90) < pi * lat" and "pi * lat < pi * 90"
    using assms pi_gt_zero by (simp_all only: mult_less_cancel_left_pos)
  then have "- (pi / 2) < deg2rad lat" and "deg2rad lat < pi / 2"
    by (simp_all add: deg2rad_def mult.commute)
  then show ?thesis by (rule cos_gt_zero_pi)
qed



subsection \<open>Arrays and the pixel loop\<close>

lemma shape_setitem [simp]: "shape (setitem a ij v) = shape a"
  by (simp add: setitem_def)

lemma length_elems_setitem [simp]: "length (elems (setitem a ij v)) = length (elems a)"
  by (simp add: setitem_def)

lemma shape_zeros [simp]: "shape (zeros (r, c)) = [r, c]"
  by (simp add: zeros_def)

lemma elems_zeros [simp]: "elems (zeros (r, c)) = replicate (r * c) False"
  by (simp add: zeros_def)

lemma set_ndindex: "set (ndindex (r, c)) = {(i, j). i < r \<and> j < c}"
  by (auto simp: ndindex_def)

lemma field_loop_shape:
  "shape (field_loop contains field bbox xl yl n_x n_y ps mask') = shape mask'"
  by (induction ps arbitrary: mask') (auto simp: Let_def)

lemma field_loop_length:
  "length (elems (field_loop contains field bbox xl yl n_x n_y ps mask')) = length (elems mask')"
  by (induction ps arbitrary: mask') (auto simp: Let_def)

text \<open>Row-major positions of a row of length \<open>c\<close> do not collide.\<close>

lemma flat_index_inj:
  fixes c :: nat
  assumes "j < c" and "j' < c" and "i * c + j = i' * c + j'"
  shows "i = i' \<and> j = j'"
proof -
  have "(i * c + j) div c = i" "(i * c + j) mod c = j" using assms(1) by simp_all
  moreover have "(i' * c + j') div c = i'" "(i' * c + j') mod c = j'" using assms(2) by simp_all
  ultimately show ?thesis using assms(3) by metis
qed

lemma flat_index_bound:
  fixes r c :: nat
  assumes "i < r" and "j < c"
  shows "i * c + j < r * c"
proof -
  have "i * c + j < i * c + c" using assms(2) by simp
  also have "\<dots> = Suc i * c" by simp
  also have "\<dots> \<le> r * c" using assms(1) by (intro mult_le_mono1) simp
  finally show ?thesis .
qed

text \<open>A position that no remaining index pair addresses keeps its value.\<close>

lemma field_loop_untouched:
  assumes "\<forall>p \<in> set ps. fst p * (shape mask' ! 1) + snd p \<noteq> k"
  shows "elems (field_loop contains field bbox xl yl n_x n_y ps mask') ! k = elems mask' ! k"
  using assms
proof (induction ps arbitrary: mask')
  case Nil
  then show ?case by simp
next
  case (Cons p ps)
  obtain i j where p: "p = (i, j)" by (cases p)
  let ?m = "setitem mask' (i, j) (contains field
      (min_x bbox + real (2 * i + 1) * xl / real (2 * n_x),
       min_y bbox + real (2 * j + 1) * yl / real (2 * n_y)))"
  have "elems (field_loop contains field bbox xl yl n_x n_y ps ?m) ! k = elems ?m ! k"
    using Cons.prems by (intro Cons.IH) simp
  moreover have "elems ?m ! k = elems mask' ! k"
    using Cons.prems by (simp add: p setitem_def)
  ultimately show ?case by (simp add: p Let_def)
qed

text \<open>
  A position that some index pair addresses ends with the containment test of that
  pixel's centre: whichever visit wrote it last wrote that value.
\<close>

lemma field_loop_written:
  assumes "(i, j) \<in> set ps"
    and "\<forall>p \<in> set ps. snd p < shape mask' ! 1"
    and "i * (shape mask' ! 1) + j < length (elems mask')"
  shows "elems (field_loop contains field bbox xl yl n_x n_y ps mask') ! (i * (shape mask' ! 1) + j)
         = contains field
             (min_x bbox + real (2 * i + 1) * xl / real (2 * n_x),
              min_y bbox + real (2 * j + 1) * yl / real (2 * n_y))"
  using assms
proof (induction ps arbitrary: mask')
  case Nil
  then show ?case by simp
next
  case (Cons p ps)
  obtain i' j' where p: "p = (i', j')" by (cases p)
  let ?c = "shape mask' ! 1"
  let ?v = "\<lambda>i j. contains field
      (min_x bbox + real (2 * i + 1) * xl / real (2 * n_x),
       min_y bbox + real (2 * j + 1) * yl / real (2 * n_y))"
  let ?m = "setitem mask' (i', j') (?v i' j')"
  have sh: "shape ?m = shape mask'" by (rule shape_setitem)
  have len: "length (elems ?m) = length (elems mask')" by (rule length_elems_setitem)
  have step: "field_loop contains field bbox xl yl n_x n_y (p # ps) mask'
              = field_loop contains field bbox xl yl n_x n_y ps ?m"
    by (simp add: p Let_def)
  show ?case
  proof (cases "(i, j) \<in> set ps")
    case True
    have "elems (field_loop contains field bbox xl yl n_x n_y ps ?m) ! (i * (shape ?m ! 1) + j) = ?v i j"
      using True Cons.prems by (intro Cons.IH) simp_all
    then show ?thesis unfolding step sh .
  next
    case False
    then have eq: "i' = i" "j' = j" using Cons.prems(1) p by auto
    have jc: "j < ?c" using Cons.prems(1,2) by auto
    have "\<forall>q \<in> set ps. fst q * (shape ?m ! 1) + snd q \<noteq> i * ?c + j"
    proof
      fix q assume q: "q \<in> set ps"
      then have "snd q < ?c" using Cons.prems(2) by simp
      then have "fst q * ?c + snd q = i * ?c + j \<Longrightarrow> fst q = i \<and> snd q = j"
        using jc flat_index_inj by blast
      then show "fst q * (shape ?m ! 1) + snd q \<noteq> i * ?c + j"
        using q False unfolding sh by (cases q) auto
    qed
    then have "elems (field_loop contains field bbox xl yl n_x n_y ps ?m) ! (i * ?c + j)
               = elems ?m ! (i * ?c + j)"
      by (rule field_loop_untouched)
    also have "\<dots> = ?v i j"
      using Cons.prems(3) by (simp add: setitem_def eq)
    finally show ?thesis unfolding step .
  qed
qed

lemma get_field_pixels_Inr:
  assumes "2 \<le> length (shape img)"
  shows "get_field_pixels contains img bbox field =
           Inr (field_loop contains field bbox (max_x bbox - min_x bbox) (max_y bbox - min_y bbox)
                  (shape img ! 0) (shape img ! 1) (ndindex (shape img ! 0, shape img ! 1))
                  (zeros (shape img ! 0, shape img ! 1)))"
  using assms by (simp add: get_field_pixels_def Let_def)

lemma get_field_pixels_result_shape:
  assumes "2 \<le> length (shape img)" and "get_field_pixels contains img bbox field = Inr mask'"
  shows "shape mask' = [shape img ! 0, shape img ! 1]"
    and "length (elems mask') = shape img ! 0 * (shape img ! 1)"
proof -
  have m: "mask' = field_loop contains field bbox (max_x bbox - min_x bbox) (max_y bbox - min_y bbox)
                  (shape img ! 0) (shape img ! 1) (ndindex (shape img ! 0, shape img ! 1))
                  (zeros (shape img ! 0, shape img ! 1))"
    using assms(2) get_field_pixels_Inr [OF assms(1), of contains bbox field] by simp
  show "shape mask' = [shape img ! 0, shape img ! 1]"
    unfolding m by (simp only: field_loop_shape shape_zeros)
  show "length (elems mask') = shape img ! 0 * (shape img ! 1)"
    unfolding m by (simp only: field_loop_length elems_zeros length_replicate)
qed

lemma get_field_pixels_entry:
  assumes "2 \<le> length (shape img)" and "i < shape img ! 0" and "j < shape img ! 1"
    and "get_field_pixels contains img bbox field = Inr mask'"
  shows "getitem mask' (i, j)
         = contains field (pixel_center bbox (shape img ! 0, shape img ! 1) (i, j))"
proof -
  let ?r = "shape img ! 0" and ?c = "shape img ! 1"
  let ?z = "zeros (?r, ?c)"
  have m: "mask' = field_loop contains field bbox (max_x bbox - min_x bbox) (max_y bbox - min_y bbox)
                  ?r ?c (ndindex (?r, ?c)) ?z"
    using assms(4) get_field_pixels_Inr [OF assms(1), of contains bbox field] by simp
  have "elems mask' ! (i * (shape ?z ! 1) + j) = contains field
             (min_x bbox + real (2 * i + 1) * (max_x bbox - min_x bbox) / real (2 * ?r),
              min_y bbox + real (2 * j + 1) * (max_y bbox - min_y bbox) / real (2 * ?c))"
    unfolding m
  proof (rule field_loop_written)
    show "(i, j) \<in> set (ndindex (?r, ?c))" using assms(2,3) by (simp add: set_ndindex)
    show "\<forall>p\<in>set (ndindex (?r, ?c)). snd p < shape ?z ! 1" by (auto simp: set_ndindex)
    show "i * (shape ?z ! 1) + j < length (elems ?z)"
      using flat_index_bound [OF assms(2,3)] by simp
  qed
  moreover have "shape mask' = shape ?z" unfolding m by (rule field_loop_shape)
  ultimately show ?thesis by (simp add: getitem_def pixel_center_def)
qed

subsection \<open>Pixel centres\<close>

text \<open>
  The offset \<open>(2 i + 1) * len / (2 n)\<close> of the centre of pixel \<open>i < n\<close> lies between 0
  and \<open>len\<close>, strictly when \<open>len\<close> is positive.
\<close>

lemma center_offset_strict:
  fixes len :: real
  assumes "i < n" and "0 < len"
  shows "0 < real (2 * i + 1) * len / real (2 * n)"
    and "real (2 * i + 1) * len / real (2 * n) < len"
proof -
  have n: "0 < real (2 * n)" using assms(1) by simp
  show "0 < real (2 * i + 1) * len / real (2 * n)"
    using n assms(2) by simp
  have "real (2 * i + 1) < real (2 * n)" using assms(1) by simp
  then have "real (2 * i + 1) * len < real (2 * n) * len"
    using assms(2) by (simp only: mult_less_cancel_right_pos)
  then show "real (2 * i + 1) * len / real (2 * n) < len"
    using n by (simp only: pos_divide_less_eq mult.commute)
qed

lemma center_offset_bounds:
  fixes len :: real
  assumes "i < n" and "0 \<le> len"
  shows "0 \<le> real (2 * i + 1) * len / real (2 * n)"
    and "real (2 * i + 1) * len / real (2 * n) \<le> len"
proof -
  show "0 \<le> real (2 * i + 1) * len / real (2 * n)" using assms(2) by simp
  show "real (2 * i + 1) * len / real (2 * n) \<le> len"
  proof (cases "len = 0")
    case True
    then show ?thesis by simp
  next
    case False
    then have "0 < len" using assms(2) by simp
    then show ?thesis using center_offset_strict(2) [OF assms(1)] by (simp only: less_imp_le)
  qed
qed

lemma pixel_center_interior:
  assumes "i < r" and "j < c" and "min_x b < max_x b" and "min_y b < max_y b"
  shows "min_x b < fst (pixel_center b (r, c) (i, j))"
    and "fst (pixel_center b (r, c) (i, j)) < max_x b"
    and "min_y b < snd (pixel_center b (r, c) (i, j))"
    and "snd (pixel_center b (r, c) (i, j)) < max_y b"
  using center_offset_strict [OF assms(1), of "max_x b - min_x b"]
        center_offset_strict [OF assms(2), of "max_y b - min_y b"] assms(3,4)
  by (simp_all add: pixel_center_def)

lemma pixel_center_in_box:
  assumes "i < r" and "j < c" and "min_x b \<le> max_x b" and "min_y b \<le> max_y b"
  shows "min_x b \<le> fst (pixel_center b (r, c) (i, j))"
    and "fst (pixel_center b (r, c) (i, j)) \<le> max_x b"
    and "min_y b \<le> snd (pixel_center b (r, c) (i, j))"
    and "snd (pixel_center b (r, c) (i, j)) \<le> max_y b"
  using center_offset_bounds [OF assms(1), of "max_x b - min_x b"]
        center_offset_bounds [OF assms(2), of "max_y b - min_y b"] assms(3,4)
  by (simp_all add: pixel_center_def)

text \<open>When the containment test gives one value at every pixel centre, the mask is constant.\<close>

lemma get_field_pixels_constant:
  assumes "2 \<le> length (shape img)"
    and "get_field_pixels contains img bbox field = Inr mask'"
    and "\<And>i j. i < shape img ! 0 \<Longrightarrow> j < shape img ! 1 \<Longrightarrow>
           contains field (pixel_center bbox (shape img ! 0, shape img ! 1) (i, j)) = v"
  shows "elems mask' = replicate (shape img ! 0 * (shape img ! 1)) v"
proof -
  let ?r = "shape img ! 0" and ?c = "shape img ! 1"
  have sh: "shape mask' = [?r, ?c]" and len: "length (elems mask') = ?r * ?c"
    using get_field_pixels_result_shape [OF assms(1,2)] by simp_all
  have "elems mask' ! k = v" if k: "k < ?r * ?c" for k
  proof -
    have c: "0 < ?c" using k by (cases "?c = 0") simp_all
    have i: "k div ?c < ?r" using k by (simp add: less_mult_imp_div_less)
    have j: "k mod ?c < ?c" using c by simp
    have "getitem mask' (k div ?c, k mod ?c) = v"
      using get_field_pixels_entry [OF assms(1) i j assms(2)] assms(3) [OF i j] by simp
    moreover have "getitem mask' (k div ?c, k mod ?c) = elems mask' ! (k div ?c * ?c + k mod ?c)"
      by (simp add: getitem_def sh)
    ultimately show ?thesis by (simp only: div_mult_mod_eq)
  qed
  then show ?thesis using len by (intro nth_equalityI) simp_all
qed

subsection \<open>Snapping a box to a pixel grid\<close>

lemma get_bbox_of_given_size_unchanged:
  assumes "bbox_to_dimensions
             (mk_BBox (float_value x_min, float_value y_min, float_value x_max, float_value y_max))
             resolution = pix"
  shows "get_bbox_of_given_size mk_BBox bbox_to_dimensions [x_min, y_min, x_max, y_max] pix resolution
         = Inr (Box (mk_BBox (float_value x_min, float_value y_min,
                              float_value x_max, float_value y_max)))"
  using assms by (simp add: get_bbox_of_given_size_def)

lemma get_bbox_of_given_size_rescaled:
  assumes "bbox_to_dimensions
             (mk_BBox (float_value x_min, float_value y_min, float_value x_max, float_value y_max))
             resolution = box_size"
    and "box_size \<noteq> pix" and "fst box_size \<noteq> 0" and "snd box_size \<noteq> 0"
  shows "get_bbox_of_given_size mk_BBox bbox_to_dimensions [x_min, y_min, x_max, y_max] pix resolution
         = Inr (Box (mk_BBox (float_value x_min, float_value y_min,
                  float_value x_min
                    + (float_value x_max - float_value x_min) * real_of_int (fst pix)
                        / real_of_int (fst box_size),
                  float_value y_min
                    + (float_value y_max - float_value y_min) * real_of_int (snd pix)
                        / real_of_int (snd box_size))))"
  using assms
  by (simp add: get_bbox_of_given_size_def float_div_int_def py_div_def np_div_def add.commute)

text \<open>
  A natural dimension of 0 that differs from the target: with Python floats the division
  raises; with numpy scalars on both axes nothing is raised and a coordinate is not a
  finite number.
\<close>

lemma get_bbox_of_given_size_python_zero_dimension:
  assumes "bbox_to_dimensions
             (mk_BBox (float_value x_min, float_value y_min, float_value x_max, float_value y_max))
             resolution = box_size"
    and "box_size \<noteq> pix" and "fst box_size = 0 \<or> snd box_size = 0"
    and "\<not> is_numpy x_min" and "\<not> is_numpy y_min" and "\<not> is_numpy x_max" and "\<not> is_numpy y_max"
  shows "get_bbox_of_given_size mk_BBox bbox_to_dimensions [x_min, y_min, x_max, y_max] pix resolution
         = Inl ZeroDivisionError"
  using assms by (auto simp: get_bbox_of_given_size_def float_div_int_def py_div_def)

lemma get_bbox_of_given_size_numpy_zero_dimension:
  assumes "bbox_to_dimensions
             (mk_BBox (float_value x_min, float_value y_min, float_value x_max, float_value y_max))
             resolution = box_size"
    and "box_size \<noteq> pix" and "fst box_size = 0 \<or> snd box_size = 0"
    and "is_numpy x_min \<or> is_numpy x_max" and "is_numpy y_min \<or> is_numpy y_max"
  shows "get_bbox_of_given_size mk_BBox bbox_to_dimensions [x_min, y_min, x_max, y_max] pix resolution
         = Inr BoxOfNonFinite"
  using assms by (auto simp: get_bbox_of_given_size_def float_div_int_def np_div_def)

lemma get_bbox_of_given_size_bad_length:
  "length coords \<noteq> 4 \<Longrightarrow>
     get_bbox_of_given_size mk_BBox bbox_to_dimensions coords pix resolution = Inl ValueError"
  by (auto simp: get_bbox_of_given_size_def split: list.splits)

lemma BBox_invariant: "min_x (BBox c) \<le> max_x (BBox c) \<and> min_y (BBox c) \<le> max_y (BBox c)"
  by (cases c) (auto simp: BBox_def min_def max_def)

lemma round_dimensions_monotonic: "0 < r \<Longrightarrow> monotonic_in_extent round_dimensions r"
  unfolding monotonic_in_extent_def round_dimensions_def fst_conv snd_conv m_to_deg_def
  by (intro allI impI conjI round_mono divide_right_mono mult_right_mono) simp_all

text \<open>
  Sample boxes at the equator, at resolution 10: 0.00003 degrees (about 3.3 metres) are
  0 pixels, 0.00006 and 0.00012 degrees are 1 pixel, 0.00018 degrees are 2 pixels and
  0.00024 degrees are 3 pixels.
\<close>

lemma round_dimensions_3: "round_dimensions (BBox (0, 0, 3 / 100000, 3 / 100000)) 10 = (0, 0)"
  by (simp add: round_dimensions_def BBox_def round_def m_to_deg_def)

lemma round_dimensions_3_9: "round_dimensions (BBox (0, 0, 3 / 100000, 9 / 100000)) 10 = (0, 1)"
  by (simp add: round_dimensions_def BBox_def round_def m_to_deg_def)

lemma round_dimensions_6: "round_dimensions (BBox (0, 0, 3 / 50000, 3 / 50000)) 10 = (1, 1)"
  by (simp add: round_dimensions_def BBox_def round_def m_to_deg_def)

lemma round_dimensions_9: "round_dimensions (BBox (0, 0, 9 / 100000, 9 / 100000)) 10 = (1, 1)"
  by (simp add: round_dimensions_def BBox_def round_def m_to_deg_def)

lemma round_dimensions_12: "round_dimensions (BBox (0, 0, 3 / 25000, 3 / 25000)) 10 = (1, 1)"
  by (simp add: round_dimensions_def BBox_def round_def m_to_deg_def)

lemma round_dimensions_18: "round_dimensions (BBox (0, 0, 9 / 50000, 9 / 50000)) 10 = (2, 2)"
  by (simp add: round_dimensions_def BBox_def round_def m_to_deg_def)

lemma round_dimensions_24: "round_dimensions (BBox (0, 0, 3 / 12500, 3 / 12500)) 10 = (3, 3)"
  by (simp add: round_dimensions_def BBox_def round_def m_to_deg_def)

subsection \<open>Float64 rounding\<close>

lemma round_half_even_of_int [simp]: "round_half_even (of_int n) = n"
  by (simp add: round_half_even_def)

lemma round_half_even_bounds:
  "real_of_int (round_half_even y) \<le> y + 1 / 2" "y - 1 / 2 \<le> real_of_int (round_half_even y)"
  unfolding round_half_even_def Let_def by (auto; linarith)+

lemma round_half_even_near:
  assumes "real_of_int n - 1 / 2 < y" and "y < real_of_int n + 1 / 2"
  shows "round_half_even y = n"
proof -
  have "real_of_int (round_half_even y) < real_of_int n + 1"
    using round_half_even_bounds(1) [of y] assms by linarith
  moreover have "real_of_int n - 1 < real_of_int (round_half_even y)"
    using round_half_even_bounds(2) [of y] assms by linarith
  ultimately show ?thesis by linarith
qed

lemma round_half_even_mono:
  assumes "x \<le> y"
  shows "round_half_even x \<le> round_half_even y"
proof (rule ccontr)
  assume "\<not> ?thesis"
  then have lt: "round_half_even y + 1 \<le> round_half_even x" by simp
  have "real_of_int (round_half_even x) \<le> x + 1 / 2" by (rule round_half_even_bounds)
  moreover have "y - 1 / 2 \<le> real_of_int (round_half_even y)" by (rule round_half_even_bounds)
  ultimately have "real_of_int (round_half_even x) \<le> real_of_int (round_half_even y) + 1"
    using assms by linarith
  then have eq: "round_half_even x = round_half_even y + 1" using lt by linarith
  then have "x = y"
    using round_half_even_bounds(1) [of x] round_half_even_bounds(2) [of y] assms by linarith
  then show False using eq by simp
qed

lemma round_half_even_minus: "round_half_even (- y) = - round_half_even y"
proof (cases "y = of_int \<lfloor>y\<rfloor>")
  case True
  then obtain n where "y = of_int n" ..
  then show ?thesis by (simp flip: of_int_minus)
next
  case False
  then have d: "0 < y - of_int \<lfloor>y\<rfloor>" "y - of_int \<lfloor>y\<rfloor> < 1"
    by linarith+
  have fl: "\<lfloor>- y\<rfloor> = - \<lfloor>y\<rfloor> - 1"
    using d by (intro floor_unique) simp_all
  have e: "even (- \<lfloor>y\<rfloor> - 1) \<longleftrightarrow> odd \<lfloor>y\<rfloor>" by simp
  consider "y - of_int \<lfloor>y\<rfloor> < 1 / 2" | "1 / 2 < y - of_int \<lfloor>y\<rfloor>"
    | "y - of_int \<lfloor>y\<rfloor> = 1 / 2" by linarith
  then show ?thesis
  proof cases
    case 1
    then show ?thesis unfolding round_half_even_def Let_def fl by simp
  next
    case 2
    then show ?thesis unfolding round_half_even_def Let_def fl by simp
  next
    case 3
    then show ?thesis unfolding round_half_even_def Let_def fl using e by simp
  qed
qed

lemma f64_exponent_minus [simp]: "f64_exponent (- x) = f64_exponent x"
  by (simp add: f64_exponent_def)

lemma f64_nearest_minus: "f64_nearest (- x) = - f64_nearest x"
  by (simp add: f64_nearest_def round_half_even_minus)

lemma f64_nearest_zero [simp]: "f64_nearest 0 = 0"
  by (simp add: f64_nearest_def)

lemma f64_nearest_nonneg:
  assumes "0 \<le> x"
  shows "0 \<le> f64_nearest x"
proof (cases "x = 0")
  case True
  then show ?thesis by simp
next
  case False
  have "0 \<le> x / 2 powr of_int (f64_exponent x)" using assms by simp
  then have "round_half_even 0 \<le> round_half_even (x / 2 powr of_int (f64_exponent x))"
    by (rule round_half_even_mono)
  then have "0 \<le> round_half_even (x / 2 powr of_int (f64_exponent x))"
    using round_half_even_of_int [of 0] by simp
  then show ?thesis using False by (simp add: f64_nearest_def)
qed

lemma binade:
  assumes "0 < x"
  shows "2 powr of_int \<lfloor>log 2 x\<rfloor> \<le> x" and "x < 2 powr of_int (\<lfloor>log 2 x\<rfloor> + 1)"
  using floor_log_eq_powr_iff [of x 2 "\<lfloor>log 2 x\<rfloor>"] assms by simp_all

text \<open>The scaled value lies below \<open>2 ^ 53\<close>, and at or above \<open>2 ^ 52\<close> in the normal range.\<close>

lemma scaled_upper:
  assumes "0 < x"
  shows "x / 2 powr of_int (f64_exponent x) < 2 ^ 53"
proof -
  let ?e = "f64_exponent x"
  have "\<lfloor>log 2 x\<rfloor> + 1 \<le> ?e + 53" using assms by (simp add: f64_exponent_def)
  then have "2 powr of_int (\<lfloor>log 2 x\<rfloor> + 1) \<le> (2::real) powr of_int (?e + 53)"
    by (intro powr_mono) simp_all
  then have "x < 2 powr of_int (?e + 53)" using binade(2) [OF assms] by linarith
  also have "\<dots> = 2 powr of_int ?e * 2 ^ 53" by (simp add: powr_add)
  finally show ?thesis by (simp add: field_simps)
qed

lemma scaled_lower:
  assumes "0 < x" and "- 1022 \<le> \<lfloor>log 2 x\<rfloor>"
  shows "2 ^ 52 \<le> x / 2 powr of_int (f64_exponent x)"
proof -
  let ?e = "f64_exponent x"
  have e: "\<lfloor>log 2 x\<rfloor> = ?e + 52" using assms by (simp add: f64_exponent_def)
  have "2 powr of_int (?e + 52) \<le> x" using binade(1) [OF assms(1)] unfolding e .
  moreover have "2 powr of_int (?e + 52) = 2 powr of_int ?e * (2::real) ^ 52" by (simp add: powr_add)
  ultimately show ?thesis by (simp add: field_simps)
qed

lemma f64_nearest_upper:
  assumes "0 < x"
  shows "f64_nearest x \<le> 2 powr of_int (f64_exponent x + 53)"
proof -
  let ?u = "2 powr of_int (f64_exponent x)"
  have "x / ?u \<le> of_int (2 ^ 53)" using scaled_upper [OF assms] by simp
  then have "round_half_even (x / ?u) \<le> round_half_even (of_int (2 ^ 53))"
    by (rule round_half_even_mono)
  then have "round_half_even (x / ?u) \<le> 2 ^ 53" by (simp only: round_half_even_of_int)
  then have "real_of_int (round_half_even (x / ?u)) \<le> 2 ^ 53"
    by (metis of_int_le_iff of_int_numeral of_int_power)
  then have "real_of_int (round_half_even (x / ?u)) * ?u \<le> 2 ^ 53 * ?u"
    by (intro mult_right_mono) simp_all
  moreover have "(2::real) powr of_int (f64_exponent x + 53) = 2 ^ 53 * ?u" by (simp add: powr_add)
  ultimately show ?thesis using assms by (simp add: f64_nearest_def)
qed

lemma f64_nearest_lower:
  assumes "0 < x" and "- 1022 \<le> \<lfloor>log 2 x\<rfloor>"
  shows "2 powr of_int (f64_exponent x + 52) \<le> f64_nearest x"
proof -
  let ?u = "2 powr of_int (f64_exponent x)"
  have "of_int (2 ^ 52) \<le> x / ?u" using scaled_lower [OF assms] by simp
  then have "round_half_even (of_int (2 ^ 52)) \<le> round_half_even (x / ?u)"
    by (rule round_half_even_mono)
  then have "2 ^ 52 \<le> round_half_even (x / ?u)" by (simp only: round_half_even_of_int)
  then have "2 ^ 52 \<le> real_of_int (round_half_even (x / ?u))"
    by (metis of_int_le_iff of_int_numeral of_int_power)
  then have "2 ^ 52 * ?u \<le> real_of_int (round_half_even (x / ?u)) * ?u"
    by (intro mult_right_mono) simp_all
  moreover have "(2::real) powr of_int (f64_exponent x + 52) = 2 ^ 52 * ?u" by (simp add: powr_add)
  ultimately show ?thesis using assms by (simp add: f64_nearest_def)
qed

lemma f64_exponent_mono:
  assumes "0 < x" and "x \<le> y"
  shows "f64_exponent x \<le> f64_exponent y"
proof -
  have "log 2 x \<le> log 2 y" using assms by simp
  then have "\<lfloor>log 2 x\<rfloor> \<le> \<lfloor>log 2 y\<rfloor>" by (rule floor_mono)
  then show ?thesis using assms by (simp add: f64_exponent_def)
qed

lemma f64_nearest_mono_pos:
  assumes "0 < x" and "x \<le> y"
  shows "f64_nearest x \<le> f64_nearest y"
proof (cases "f64_exponent x = f64_exponent y")
  case True
  let ?u = "2 powr of_int (f64_exponent y)"
  have "x / ?u \<le> y / ?u" using assms by (simp add: divide_right_mono)
  then have "round_half_even (x / ?u) \<le> round_half_even (y / ?u)" by (rule round_half_even_mono)
  then have "real_of_int (round_half_even (x / ?u)) * ?u \<le> real_of_int (round_half_even (y / ?u)) * ?u"
    by (intro mult_right_mono) simp_all
  then show ?thesis using assms True by (simp add: f64_nearest_def)
next
  case False
  then have lt: "f64_exponent x < f64_exponent y"
    using f64_exponent_mono [OF assms] by simp
  have y: "0 < y" using assms by simp
  have ay: "\<bar>y\<bar> = y" using y by simp
  have normal: "- 1022 \<le> \<lfloor>log 2 y\<rfloor>"
    using lt unfolding f64_exponent_def ay by linarith
  have "f64_nearest x \<le> 2 powr of_int (f64_exponent x + 53)" using assms(1) by (rule f64_nearest_upper)
  also have "\<dots> \<le> 2 powr of_int (f64_exponent y + 52)" using lt by (intro powr_mono) simp_all
  also have "\<dots> \<le> f64_nearest y" using y normal by (rule f64_nearest_lower)
  finally show ?thesis .
qed

lemma f64_nearest_mono:
  assumes "x \<le> y"
  shows "f64_nearest x \<le> f64_nearest y"
proof -
  consider "0 < x" | "x \<le> 0" "0 \<le> y" | "y < 0" by linarith
  then show ?thesis
  proof cases
    case 1
    then show ?thesis using assms by (rule f64_nearest_mono_pos)
  next
    case 2
    have "f64_nearest x \<le> 0"
      using f64_nearest_nonneg [of "- x"] 2(1) by (simp add: f64_nearest_minus)
    moreover have "0 \<le> f64_nearest y" using 2(2) by (rule f64_nearest_nonneg)
    ultimately show ?thesis by simp
  next
    case 3
    have "f64_nearest (- y) \<le> f64_nearest (- x)"
      using 3 assms by (intro f64_nearest_mono_pos) simp_all
    then show ?thesis by (simp add: f64_nearest_minus)
  qed
qed

text \<open>
  The rounded value of a number in a known binade, for concrete runs: \<open>n\<close> is the
  binary exponent of \<open>x\<close> and \<open>k\<close> the integer nearest to the scaled value.
\<close>

lemma f64_nearest_eval:
  assumes "2 powr of_int n \<le> \<bar>x\<bar>" and "\<bar>x\<bar> < 2 powr of_int (n + 1)"
    and "e = max n (- 1022) - 52"
    and "real_of_int k - 1 / 2 < x / 2 powr of_int e"
    and "x / 2 powr of_int e < real_of_int k + 1 / 2"
  shows "f64_nearest x = of_int k * 2 powr of_int e"
proof -
  have pos: "0 < \<bar>x\<bar>" using assms(1) powr_gt_zero [of 2 "of_int n"] by linarith
  then have nz: "x \<noteq> 0" by simp
  have "\<lfloor>log 2 \<bar>x\<bar>\<rfloor> = n"
    using floor_log_eq_powr_iff [of "\<bar>x\<bar>" 2 n] pos assms(1,2) by simp
  then have e: "f64_exponent x = e" by (simp add: f64_exponent_def assms(3))
  have "round_half_even (x / 2 powr of_int e) = k" using assms(4,5) by (rule round_half_even_near)
  then show ?thesis using nz by (simp add: f64_nearest_def e)
qed

lemma f64_finite:
  assumes "f64_nearest x = y" and "\<bar>y\<bar> < 2 ^ 1024"
  shows "f64 x = Fin y"
  using assms by (auto simp: f64_def f64_huge_def Let_def)

lemma f64_nearest_pow2_m60: "f64_nearest (1 / 2 ^ 60) = 1 / 2 ^ 60"
  using f64_nearest_eval [of "- 60" "1 / 2 ^ 60" "- 112" "2 ^ 52"]
  by (simp add: powr_neg_numeral)

lemma f64_nearest_one: "f64_nearest 1 = 1"
  using f64_nearest_eval [of 0 1 "- 52" "2 ^ 52"]
  by (simp add: powr_neg_numeral)

lemma f64_nearest_111111: "f64_nearest 111111 = 111111"
  using f64_nearest_eval [of 16 111111 "- 36" "111111 * 2 ^ 36"]
  by (simp add: powr_neg_numeral)

lemma f64_nearest_half_side: "f64_nearest (111111 / 2 ^ 60) = 111111 / 2 ^ 60"
  using f64_nearest_eval [of "- 44" "111111 / 2 ^ 60" "- 96" "111111 * 2 ^ 36"]
  by (simp add: powr_neg_numeral)

lemma f64_nearest_half: "f64_nearest (1 / 2) = 1 / 2"
  using f64_nearest_eval [of "- 1" "1 / 2" "- 53" "2 ^ 52"] by (simp add: powr_neg_numeral)

lemma f64_nearest_half_of_111111: "f64_nearest (111111 / 2) = 111111 / 2"
  using f64_nearest_eval [of 15 "111111 / 2" "- 37" "111111 * 2 ^ 36"]
  by (simp add: powr_neg_numeral)

lemma f64_nearest_100: "f64_nearest 100 = 100"
  using f64_nearest_eval [of 6 100 "- 46" "100 * 2 ^ 46"]
  by (simp add: powr_neg_numeral)

lemma f64_nearest_100_minus: "f64_nearest (100 - 1 / 2 ^ 60) = 100"
  using f64_nearest_eval [of 6 "100 - 1 / 2 ^ 60" "- 46" "100 * 2 ^ 46"]
  by (simp add: powr_neg_numeral)

lemma f64_nearest_100_plus: "f64_nearest (100 + 1 / 2 ^ 60) = 100"
  using f64_nearest_eval [of 6 "100 + 1 / 2 ^ 60" "- 46" "100 * 2 ^ 46"]
  by (simp add: powr_neg_numeral)

lemma f64_cases:
  "f64 x = (if f64_huge \<le> f64_nearest x then PosInf
            else if f64_nearest x \<le> - f64_huge then NegInf else Fin (f64_nearest x))"
  by (simp add: f64_def Let_def)

lemma f64_huge_pos: "0 < f64_huge"
  by (simp add: f64_huge_def)

lemma f64_tiny_pos: "0 < f64_tiny"
  by (simp add: f64_tiny_def)

lemma f64_le_mono:
  assumes "x \<le> y"
  shows "f64_le (f64 x) (f64 y)"
  using f64_nearest_mono [OF assms] by (simp add: f64_cases)

lemma is_f64_D:
  assumes "is_f64 x"
  shows "f64_nearest x = x" and "\<bar>x\<bar> < f64_huge" and "f64 x = Fin x"
  using assms by (auto simp: is_f64_def f64_cases split: if_splits)

lemma f64_nearest_tiny: "f64_nearest f64_tiny = f64_tiny"
  unfolding f64_tiny_def
  using f64_nearest_eval [of "- 1074" "1 / 2 ^ 1074" "- 1074" 1]
  by (simp add: powr_neg_numeral)

lemma f64_nearest_half_huge: "f64_nearest (f64_huge / 2) = f64_huge / 2"
  unfolding f64_huge_def
  using f64_nearest_eval [of 1023 "2 ^ 1024 / 2" 971 "2 ^ 52"]
  by simp

lemma f64_nearest_huge: "f64_nearest f64_huge = f64_huge"
  unfolding f64_huge_def
  using f64_nearest_eval [of 1024 "2 ^ 1024" 972 "2 ^ 52"]
  by simp

text \<open>A positive float64 is at least the smallest subnormal.\<close>

lemma positive_f64_lower:
  assumes "is_f64 c" and "0 < c"
  shows "f64_tiny \<le> c"
proof -
  let ?e = "f64_exponent c"
  let ?k = "round_half_even (c / 2 powr of_int ?e)"
  have c: "c = of_int ?k * 2 powr of_int ?e"
    using is_f64_D(1) [OF assms(1)] assms(2) by (simp add: f64_nearest_def)
  have "0 < real_of_int ?k * 2 powr of_int ?e" using c assms(2) by simp
  then have "0 < real_of_int ?k" by (simp add: zero_less_mult_iff)
  then have "0 < ?k" by simp
  then have "1 \<le> ?k" by linarith
  then have k: "1 \<le> real_of_int ?k" by simp
  have "- 1074 \<le> ?e" by (simp add: f64_exponent_def)
  then have "(2::real) powr of_int (- 1074) \<le> 2 powr of_int ?e" by (intro powr_mono) simp_all
  also have "\<dots> \<le> real_of_int ?k * 2 powr of_int ?e" using k by simp
  finally have "(2::real) powr of_int (- 1074) \<le> c" using c by simp
  moreover have "(2::real) powr of_int (- 1074) = f64_tiny"
    by (simp add: f64_tiny_def powr_neg_numeral)
  ultimately show ?thesis by simp
qed

lemma half_side_finite:
  assumes "0 < m" and "m < f64_huge"
  shows "\<exists>h. f64 (m / 2) = Fin h \<and> 0 \<le> h \<and> h \<le> f64_huge / 2"
proof -
  have "0 \<le> f64_nearest (m / 2)" using assms(1) by (intro f64_nearest_nonneg) simp
  moreover have "f64_nearest (m / 2) \<le> f64_nearest (f64_huge / 2)"
    using assms(2) by (intro f64_nearest_mono) simp
  ultimately show ?thesis using f64_huge_pos by (simp add: f64_cases f64_nearest_half_huge)
qed

lemma quotient_by_m_to_deg_finite:
  assumes "0 \<le> h" and "h \<le> f64_huge / 2"
  shows "\<exists>h'. f64 (h / m_to_deg) = Fin h' \<and> 0 \<le> h'"
proof -
  have "0 \<le> f64_nearest (h / m_to_deg)"
    using assms(1) by (intro f64_nearest_nonneg) (simp add: m_to_deg_def)
  moreover have "h / m_to_deg \<le> h" using assms(1) by (simp add: m_to_deg_def field_simps)
  then have "h / m_to_deg \<le> f64_huge / 2" using assms(2) by linarith
  then have "f64_nearest (h / m_to_deg) \<le> f64_nearest (f64_huge / 2)" by (rule f64_nearest_mono)
  ultimately show ?thesis using f64_huge_pos by (simp add: f64_cases f64_nearest_half_huge)
qed

lemma divisor_positive:
  assumes "is_f64 c" and "0 < c"
  shows "f64 (m_to_deg * c) = PosInf \<or> (\<exists>d. f64 (m_to_deg * c) = Fin d \<and> 0 < d)"
proof -
  have "c \<le> m_to_deg * c" using assms(2) by (simp add: m_to_deg_def)
  then have "f64_tiny \<le> m_to_deg * c" using positive_f64_lower [OF assms] by linarith
  then have "f64_nearest f64_tiny \<le> f64_nearest (m_to_deg * c)" by (rule f64_nearest_mono)
  then have "0 < f64_nearest (m_to_deg * c)" using f64_tiny_pos by (simp add: f64_nearest_tiny)
  then show ?thesis using f64_huge_pos by (simp add: f64_cases)
qed

lemma half_width_nonneg:
  assumes "0 \<le> h" and "d = PosInf \<or> (\<exists>d'. d = Fin d' \<and> 0 < d')"
  shows "f64_div (Fin h) d = PosInf \<or> (\<exists>q. f64_div (Fin h) d = Fin q \<and> 0 \<le> q)"
  using assms(2)
proof
  assume "d = PosInf"
  then show ?thesis by simp
next
  assume "\<exists>d'. d = Fin d' \<and> 0 < d'"
  then obtain d' where d: "d = Fin d'" "0 < d'" by blast
  have "0 \<le> f64_nearest (h / d')" using assms(1) d(2) by (intro f64_nearest_nonneg) simp
  then show ?thesis using d f64_huge_pos by (simp add: f64_cases)
qed

lemma bounds_around:
  assumes "is_f64 a" and "q = PosInf \<or> (\<exists>q'. q = Fin q' \<and> 0 \<le> q')"
  shows "f64_le (f64_sub (Fin a) q) (Fin a)" and "f64_le (Fin a) (f64_add (Fin a) q)"
proof -
  have a: "f64 a = Fin a" using assms(1) by (rule is_f64_D)
  show "f64_le (f64_sub (Fin a) q) (Fin a)"
    using assms(2)
  proof
    assume "q = PosInf" then show ?thesis by (simp add: f64_sub_def)
  next
    assume "\<exists>q'. q = Fin q' \<and> 0 \<le> q'"
    then obtain q' where q: "q = Fin q'" "0 \<le> q'" by blast
    have "f64_le (f64 (a + - q')) (f64 a)" using q(2) by (intro f64_le_mono) simp
    then show ?thesis by (simp add: f64_sub_def q a)
  qed
  show "f64_le (Fin a) (f64_add (Fin a) q)"
    using assms(2)
  proof
    assume "q = PosInf" then show ?thesis by simp
  next
    assume "\<exists>q'. q = Fin q' \<and> 0 \<le> q'"
    then obtain q' where q: "q = Fin q'" "0 \<le> q'" by blast
    have "f64_le (f64 a) (f64 (a + q'))" using q(2) by (intro f64_le_mono) simp
    then show ?thesis by (simp add: q a)
  qed
qed

lemma f64_le_trans:
  assumes "f64_le a b" and "f64_le b c"
  shows "f64_le a c"
  using assms by (cases a; cases b; cases c) simp_all

text \<open>
  The rounding error: at most half a unit in the last place, which is at most
  \<open>\<bar>x\<bar> / 2 ^ 53\<close> for a normal number and \<open>f64_tiny / 2\<close> for a subnormal one.
\<close>

lemma f64_nearest_error:
  "\<bar>f64_nearest x - x\<bar> \<le> \<bar>x\<bar> / 2 ^ 53 + f64_tiny / 2"
proof (cases "x = 0")
  case True
  then show ?thesis using f64_tiny_pos by simp
next
  case False
  let ?e = "f64_exponent x"
  let ?u = "(2::real) powr of_int ?e"
  let ?k = "real_of_int (round_half_even (x / ?u))"
  have u: "0 < ?u" by simp
  have "\<bar>?k - x / ?u\<bar> \<le> 1 / 2"
    using round_half_even_bounds [of "x / ?u"] by linarith
  then have "\<bar>?k - x / ?u\<bar> * ?u \<le> 1 / 2 * ?u" using u by (intro mult_right_mono) simp_all
  moreover have "\<bar>?k - x / ?u\<bar> * ?u = \<bar>?k * ?u - x\<bar>"
  proof -
    have "\<bar>?k - x / ?u\<bar> * ?u = \<bar>(?k - x / ?u) * ?u\<bar>" using u by (simp add: abs_mult)
    also have "(?k - x / ?u) * ?u = ?k * ?u - x" using u by (simp add: field_simps)
    finally show ?thesis .
  qed
  ultimately have err: "\<bar>f64_nearest x - x\<bar> \<le> ?u / 2" using False by (simp add: f64_nearest_def)
  have pos: "0 < \<bar>x\<bar>" using False by simp
  show ?thesis
  proof (cases "- 1022 \<le> \<lfloor>log 2 \<bar>x\<bar>\<rfloor>")
    case True
    then have e: "\<lfloor>log 2 \<bar>x\<bar>\<rfloor> = ?e + 52" by (simp add: f64_exponent_def)
    have "2 powr of_int (?e + 52) \<le> \<bar>x\<bar>" using binade(1) [OF pos] unfolding e .
    moreover have "(2::real) powr of_int (?e + 52) = ?u * 2 ^ 52" by (simp add: powr_add)
    ultimately have "?u * 2 ^ 52 \<le> \<bar>x\<bar>" by simp
    then have "?u / 2 \<le> \<bar>x\<bar> / 2 ^ 53" by (simp add: field_simps)
    then show ?thesis using err f64_tiny_pos by linarith
  next
    case False
    then have "?e = - 1074" by (simp add: f64_exponent_def)
    then have "?u = f64_tiny" by (simp add: f64_tiny_def powr_neg_numeral)
    then have "\<bar>f64_nearest x - x\<bar> \<le> f64_tiny / 2" using err by simp
    moreover have "0 \<le> \<bar>x\<bar> / 2 ^ 53" by simp
    ultimately show ?thesis by linarith
  qed
qed

lemma abs_sum_around:
  fixes a q :: real
  assumes "0 \<le> q"
  shows "(\<bar>a - q\<bar> + \<bar>a + q\<bar>) / 2 = max \<bar>a\<bar> q"
  using assms by (auto simp: max_def abs_if)

text \<open>The midpoint of the roundings of \<open>a - q\<close> and \<open>a + q\<close> is \<open>a\<close> up to the rounding error.\<close>

lemma midpoint_error:
  assumes "0 \<le> q"
  shows "\<bar>(f64_nearest (a - q) + f64_nearest (a + q)) / 2 - a\<bar>
         \<le> max \<bar>a\<bar> q / 2 ^ 53 + f64_tiny / 2"
proof -
  have 1: "\<bar>f64_nearest (a - q) - (a - q)\<bar> \<le> \<bar>a - q\<bar> / 2 ^ 53 + f64_tiny / 2"
    by (rule f64_nearest_error)
  have 2: "\<bar>f64_nearest (a + q) - (a + q)\<bar> \<le> \<bar>a + q\<bar> / 2 ^ 53 + f64_tiny / 2"
    by (rule f64_nearest_error)
  have "(f64_nearest (a - q) + f64_nearest (a + q)) / 2 - a
        = ((f64_nearest (a - q) - (a - q)) + (f64_nearest (a + q) - (a + q))) / 2"
    by simp
  also have "\<bar>\<dots>\<bar> = \<bar>(f64_nearest (a - q) - (a - q)) + (f64_nearest (a + q) - (a + q))\<bar> / 2"
    by simp
  also have "\<dots> \<le> (\<bar>f64_nearest (a - q) - (a - q)\<bar> + \<bar>f64_nearest (a + q) - (a + q)\<bar>) / 2"
    by (intro divide_right_mono abs_triangle_ineq) simp
  also have "\<dots> \<le> ((\<bar>a - q\<bar> + \<bar>a + q\<bar>) / 2) / 2 ^ 53 + f64_tiny / 2"
    using 1 2 by (simp add: field_simps)
  finally show ?thesis unfolding abs_sum_around [OF assms] .
qed

lemma midpoint_of_bounds:
  assumes "Q = Fin q" and "0 \<le> q"
    and "f64_sub (Fin a) Q = Fin lo" and "f64_add (Fin a) Q = Fin hi"
  shows "\<bar>(lo + hi) / 2 - a\<bar> \<le> max \<bar>a\<bar> q / 2 ^ 53 + f64_tiny / 2"
proof -
  have "lo = f64_nearest (a - q)"
    using assms(3) unfolding assms(1) by (simp add: f64_sub_def f64_cases split: if_splits)
  moreover have "hi = f64_nearest (a + q)"
    using assms(4) unfolding assms(1) by (simp add: f64_cases split: if_splits)
  ultimately show ?thesis using midpoint_error [OF assms(2)] by simp
qed

text \<open>
  The rounded bounds \<open>a - q\<close> and \<open>a + q\<close> are strictly ordered when a float64 other
  than \<open>a\<close> lies between the exact bounds.
\<close>

lemma strict_order_around:
  assumes "is_f64 a" and "Q = Fin q" and "0 \<le> q"
    and "is_f64 z" and "z \<noteq> a" and "a - q \<le> z" and "z \<le> a + q"
  shows "f64_less (f64_sub (Fin a) Q) (f64_add (Fin a) Q)"
proof -
  let ?L = "f64 (a + - q)" and ?U = "f64 (a + q)"
  have a: "f64 a = Fin a" using assms(1) by (rule is_f64_D)
  have z: "f64 z = Fin z" using assms(4) by (rule is_f64_D)
  have La: "f64_le ?L (Fin a)" using f64_le_mono [of "a + - q" a] assms(3) a by simp
  have aU: "f64_le (Fin a) ?U" using f64_le_mono [of a "a + q"] assms(3) a by simp
  have Lz: "f64_le ?L (Fin z)" using f64_le_mono [of "a + - q" z] assms(6) z by simp
  have zU: "f64_le (Fin z) ?U" using f64_le_mono [of z "a + q"] assms(7) z by simp
  have "f64_less ?L ?U"
    using La aU Lz zU assms(5) by (cases ?L; cases ?U) (auto simp: f64_less_def)
  then show ?thesis unfolding assms(2) by (simp add: f64_sub_def)
qed

text \<open>
  An integer side of \<open>2 ^ 1025\<close> metres: the quotient \<^verbatim>\<open>m / 2\<close> is beyond the float64
  range and the function raises.
\<close>

lemma get_square_around_point_f64_overflow:
  "get_square_around_point_f64 np_deg2rad np_cos lon lat (2 * f64_huge) = Inl OverflowError"
  using f64_huge_pos by (simp add: get_square_around_point_f64_def f64_cases f64_nearest_huge)

subsection \<open>The square around a point in exact arithmetic\<close>

text \<open>
  In exact arithmetic the box is strictly ordered on both axes and its midpoint is the
  input point, for every latitude strictly between -90 and 90 degrees and every
  positive side.
\<close>

lemma get_square_around_point_centered_exact:
  assumes "- 90 < lat" and "lat < 90" and "0 < m"
  shows "\<exists>x_min y_min x_max y_max.
           get_square_around_point lon lat m = Inr [Num x_min, Num y_min, Num x_max, Num y_max]
         \<and> x_min < x_max \<and> y_min < y_max
         \<and> (x_min + x_max) / 2 = lon \<and> (y_min + y_max) / 2 = lat"
proof -
  let ?d = "m_to_deg * cos (deg2rad lat)"
  have c: "0 < cos (deg2rad lat)" using assms(1,2) by (rule cos_deg2rad_pos)
  have k: "0 < m_to_deg" by (simp add: m_to_deg_def)
  have d: "0 < ?d" using c k by simp
  have e: "get_square_around_point lon lat m =
      Inr [Num (lon - m / 2 / ?d), Num (lat - m / 2 / m_to_deg),
           Num (lon + m / 2 / ?d), Num (lat + m / 2 / m_to_deg)]"
    using c k by (simp add: get_square_around_point_def np_div_def Let_def)
  have q: "0 < m / 2 / ?d" using d assms(3) by simp
  have y: "0 < m / 2 / m_to_deg" using k assms(3) by simp
  show ?thesis
    apply (intro exI conjI)
        apply (rule e)
    using q y by simp_all
qed

subsection \<open>The pixel loop in float64\<close>









subsection \<open>Concrete float64 values\<close>












subsection \<open>The mask of a covering polygon in exact arithmetic\<close>

text \<open>
  In exact arithmetic every pixel centre of a non-degenerate box lies strictly inside
  it, so a polygon that covers the interior of the box gives a mask that is true
  everywhere.
\<close>

lemma get_field_pixels_covering_polygon_all_true_exact:
  assumes "2 \<le> length (shape img)"
    and "min_x bbox < max_x bbox" and "min_y bbox < max_y bbox"
    and "covers_extent contains field bbox"
  shows "\<exists>mask'. get_field_pixels contains img bbox field = Inr mask'
           \<and> shape mask' = [shape img ! 0, shape img ! 1]
           \<and> elems mask' = replicate (shape img ! 0 * (shape img ! 1)) True"
proof -
  obtain mask' where m: "get_field_pixels contains img bbox field = Inr mask'"
    using get_field_pixels_Inr [OF assms(1), of contains bbox field] by simp
  have "contains field (pixel_center bbox (shape img ! 0, shape img ! 1) (i, j)) = True"
    if "i < shape img ! 0" and "j < shape img ! 1" for i j
  proof -
    obtain x y where p: "pixel_center bbox (shape img ! 0, shape img ! 1) (i, j) = (x, y)"
      by (cases "pixel_center bbox (shape img ! 0, shape img ! 1) (i, j)")
    have "min_x bbox < x \<and> x < max_x bbox \<and> min_y bbox < y \<and> y < max_y bbox"
      using pixel_center_interior [OF that assms(2,3)] unfolding p by simp
    then show ?thesis using assms(4) unfolding p covers_extent_def by simp
  qed
  then have "elems mask' = replicate (shape img ! 0 * (shape img ! 1)) True"
    by (rule get_field_pixels_constant [OF assms(1) m])
  then show ?thesis using m get_field_pixels_result_shape(1) [OF assms(1) m] by simp
qed

subsection \<open>A concrete run\<close>

text \<open>
  A 2 x 2 image with three channels over the box from (0, 0) to (4, 4) and the square
  field from (0, 0) to (2, 2): the pixel centres are (1, 1), (1, 3), (3, 1) and (3, 3),
  and only the first lies in the field.
\<close>

lemma get_field_pixels_sample_run:
  "get_field_pixels rect_contains \<lparr>shape = [2, 2, 3], elems = replicate 12 (0::real)\<rparr>
     (BBox (0, 0, 4, 4)) (BBox (0, 0, 2, 2))
   = Inr \<lparr>shape = [2, 2], elems = [True, False, False, False]\<rparr>"
  by code_simp

section \<open>The claims\<close>

subsection \<open>\<^verbatim>\<open>get_square_around_point\<close>\<close>

text \<open>
  Claim C1, as stated: for every longitude, every latitude strictly between -90 and 90
  degrees and every side \<open>m > 0\<close>, the returned list has \<open>min_lon < max_lon\<close> and
  \<open>min_lat < max_lat\<close>, and the midpoints are the input longitude and latitude. In
  float64 the strict ordering fails when the half-width is below the rounding
  resolution of the coordinate: at longitude 100, latitude 0 and side
  \<open>111111 / 2 ^ 59\<close> metres both half-widths are \<open>1 / 2 ^ 60\<close> degrees, and
  \<open>100 - 1 / 2 ^ 60\<close> and \<open>100 + 1 / 2 ^ 60\<close> both round to 100.
\<close>

theorem get_square_around_point_f64_absorbed_counterexample:
  "get_square_around_point_f64 deg2rad_f64 cos_f64 100 0 (111111 / 2 ^ 59)
   = Inr [Fin 100, Fin (- (1 / 2 ^ 60)), Fin 100, Fin (1 / 2 ^ 60)]"
proof -
  have half: "f64 (111111 / 2 ^ 60) = Fin (111111 / 2 ^ 60)"
    by (rule f64_finite [OF f64_nearest_half_side]) simp
  have c: "cos_f64 (deg2rad_f64 0) = 1"
    by (simp add: cos_f64_def deg2rad_f64_def f64_nearest_one)
  have d: "f64 111111 = Fin 111111"
    by (rule f64_finite [OF f64_nearest_111111]) simp
  have q: "f64 (1 / 2 ^ 60) = Fin (1 / 2 ^ 60)"
    by (rule f64_finite [OF f64_nearest_pow2_m60]) simp
  have lon: "f64 100 = Fin 100" by (rule f64_finite [OF f64_nearest_100]) simp
  have lat: "f64 0 = Fin 0" by (rule f64_finite) simp_all
  have xm: "f64 (100 - 1 / 2 ^ 60) = Fin 100"
    by (rule f64_finite [OF f64_nearest_100_minus]) simp
  have xp: "f64 (100 + 1 / 2 ^ 60) = Fin 100"
    by (rule f64_finite [OF f64_nearest_100_plus]) simp
  have "f64_nearest (- (1 / 2 ^ 60)) = - (1 / 2 ^ 60)"
    by (simp only: f64_nearest_minus f64_nearest_pow2_m60)
  then have ym: "f64 (- (1 / 2 ^ 60)) = Fin (- (1 / 2 ^ 60))"
    by (rule f64_finite) simp
  show ?thesis
    by (simp add: get_square_around_point_f64_def m_to_deg_def c f64_sub_def
        half [simplified] d q [simplified] lon lat xm [simplified] xp [simplified] ym [simplified])
qed

text \<open>
  Claim C1, amended. For every float64 longitude and latitude and every side \<open>m > 0\<close>
  (within the float64 range), where the library cosine of the latitude is a positive
  float64, as it is for a latitude strictly between -90 and 90 degrees,
  \<^verbatim>\<open>get_square_around_point\<close> returns a list \<open>[min_lon, min_lat, max_lon, max_lat]\<close>
  whose bounds are the float64 roundings of \<open>lon - q\<close>, \<open>lat - h\<close>, \<open>lon + q\<close>, \<open>lat + h\<close>
  for the half-widths \<open>q = half_side / (m_to_deg * cosine)\<close> and
  \<open>h = half_side / m_to_deg\<close>, both non-negative. Hence
  \<^item> \<open>min_lon \<le> lon \<le> max_lon\<close>, \<open>min_lat \<le> lat \<le> max_lat\<close>, and \<open>min \<le> max\<close> on both axes;
  \<^item> \<open>min < max\<close> on an axis as soon as a float64 other than the input coordinate lies
    between the exact bounds (the half-width is not absorbed by the rounding);
  \<^item> the midpoint of finite bounds is the input coordinate within the rounding error of
    the two bounds: \<open>max \<bar>lon\<bar> q / 2 ^ 53 + f64_tiny / 2\<close> for the longitude, the same with
    \<open>lat\<close> and \<open>h\<close> for the latitude.

  A longitude half-width or a bound that overflows is an infinity.
\<close>

theorem get_square_around_point_f64_box:
  assumes "is_f64 lon" and "is_f64 lat" and "0 < m" and "m < 2 ^ 1024"
    and "is_f64 (np_cos (np_deg2rad lat))" and "0 < np_cos (np_deg2rad lat)"
  shows "\<exists>half_side q h.
             f64 (m / 2) = Fin half_side
           \<and> q = f64_div (Fin half_side) (f64 (m_to_deg * np_cos (np_deg2rad lat)))
           \<and> h = f64 (half_side / m_to_deg)
           \<and> get_square_around_point_f64 np_deg2rad np_cos lon lat m
               = Inr [f64_sub (Fin lon) q, f64_sub (Fin lat) h,
                      f64_add (Fin lon) q, f64_add (Fin lat) h]
           \<and> f64_le (Fin 0) q \<and> f64_le (Fin 0) h
           \<and> f64_le (f64_sub (Fin lon) q) (Fin lon) \<and> f64_le (Fin lon) (f64_add (Fin lon) q)
           \<and> f64_le (f64_sub (Fin lat) h) (Fin lat) \<and> f64_le (Fin lat) (f64_add (Fin lat) h)
           \<and> f64_le (f64_sub (Fin lon) q) (f64_add (Fin lon) q)
           \<and> f64_le (f64_sub (Fin lat) h) (f64_add (Fin lat) h)
           \<and> (\<forall>q' z. q = Fin q' \<and> is_f64 z \<and> z \<noteq> lon \<and> lon - q' \<le> z \<and> z \<le> lon + q'
                 \<longrightarrow> f64_less (f64_sub (Fin lon) q) (f64_add (Fin lon) q))
           \<and> (\<forall>h' z. h = Fin h' \<and> is_f64 z \<and> z \<noteq> lat \<and> lat - h' \<le> z \<and> z \<le> lat + h'
                 \<longrightarrow> f64_less (f64_sub (Fin lat) h) (f64_add (Fin lat) h))
           \<and> (\<forall>q' lo hi. q = Fin q' \<and> f64_sub (Fin lon) q = Fin lo \<and> f64_add (Fin lon) q = Fin hi
                 \<longrightarrow> \<bar>(lo + hi) / 2 - lon\<bar> \<le> max \<bar>lon\<bar> q' / 2 ^ 53 + f64_tiny / 2)
           \<and> (\<forall>h' lo hi. h = Fin h' \<and> f64_sub (Fin lat) h = Fin lo \<and> f64_add (Fin lat) h = Fin hi
                 \<longrightarrow> \<bar>(lo + hi) / 2 - lat\<bar> \<le> max \<bar>lat\<bar> h' / 2 ^ 53 + f64_tiny / 2)"
proof -
  have "m < f64_huge" using assms(4) by (simp add: f64_huge_def)
  then obtain half_side where
    hs: "f64 (m / 2) = Fin half_side" "0 \<le> half_side" "half_side \<le> f64_huge / 2"
    using half_side_finite [OF assms(3)] by blast
  let ?q = "f64_div (Fin half_side) (f64 (m_to_deg * np_cos (np_deg2rad lat)))"
  let ?h = "f64 (half_side / m_to_deg)"
  have q: "?q = PosInf \<or> (\<exists>q'. ?q = Fin q' \<and> 0 \<le> q')"
    using hs(2) divisor_positive [OF assms(5,6)] by (rule half_width_nonneg)
  obtain h' where h: "?h = Fin h'" "0 \<le> h'"
    using quotient_by_m_to_deg_finite [OF hs(2,3)] by blast
  have h2: "?h = PosInf \<or> (\<exists>q'. ?h = Fin q' \<and> 0 \<le> q')" using h by simp
  have e: "get_square_around_point_f64 np_deg2rad np_cos lon lat m
           = Inr [f64_sub (Fin lon) ?q, f64_sub (Fin lat) ?h, f64_add (Fin lon) ?q, f64_add (Fin lat) ?h]"
    by (simp add: get_square_around_point_f64_def hs(1) Let_def
        is_f64_D(3) [OF assms(1)] is_f64_D(3) [OF assms(2)])
  have q0: "f64_le (Fin 0) ?q" using q by auto
  have h0: "f64_le (Fin 0) ?h" using h by simp
  note bx = bounds_around [OF assms(1) q]
  note by' = bounds_around [OF assms(2) h2]
  have ox: "f64_le (f64_sub (Fin lon) ?q) (f64_add (Fin lon) ?q)"
    using bx by (rule f64_le_trans)
  have oy: "f64_le (f64_sub (Fin lat) ?h) (f64_add (Fin lat) ?h)"
    using by' by (rule f64_le_trans)
  have qn: "0 \<le> q'" if "?q = Fin q'" for q' using q that by auto
  have hn: "0 \<le> x" if "?h = Fin x" for x using h that by simp
  have sx: "\<forall>q' z. ?q = Fin q' \<and> is_f64 z \<and> z \<noteq> lon \<and> lon - q' \<le> z \<and> z \<le> lon + q'
                 \<longrightarrow> f64_less (f64_sub (Fin lon) ?q) (f64_add (Fin lon) ?q)"
    using strict_order_around [OF assms(1) _ qn] by blast
  have sy: "\<forall>x z. ?h = Fin x \<and> is_f64 z \<and> z \<noteq> lat \<and> lat - x \<le> z \<and> z \<le> lat + x
                 \<longrightarrow> f64_less (f64_sub (Fin lat) ?h) (f64_add (Fin lat) ?h)"
    using strict_order_around [OF assms(2) _ hn] by blast
  have mx: "\<forall>q' lo hi. ?q = Fin q' \<and> f64_sub (Fin lon) ?q = Fin lo \<and> f64_add (Fin lon) ?q = Fin hi
                 \<longrightarrow> \<bar>(lo + hi) / 2 - lon\<bar> \<le> max \<bar>lon\<bar> q' / 2 ^ 53 + f64_tiny / 2"
    using midpoint_of_bounds [OF _ qn] by blast
  have my: "\<forall>x lo hi. ?h = Fin x \<and> f64_sub (Fin lat) ?h = Fin lo \<and> f64_add (Fin lat) ?h = Fin hi
                 \<longrightarrow> \<bar>(lo + hi) / 2 - lat\<bar> \<le> max \<bar>lat\<bar> x / 2 ^ 53 + f64_tiny / 2"
    using midpoint_of_bounds [OF _ hn] by blast
  show ?thesis
    apply (rule exI [of _ half_side])
    apply (rule exI [of _ ?q])
    apply (rule exI [of _ ?h])
    apply (intro conjI)
    apply (rule hs(1))
    apply (rule refl)
    apply (rule refl)
    apply (rule e)
    apply (rule q0)
    apply (rule h0)
    apply (rule bx(1))
    apply (rule bx(2))
    apply (rule by'(1))
    apply (rule by'(2))
    apply (rule ox)
    apply (rule oy)
    apply (rule sx)
    apply (rule sy)
    apply (rule mx)
    apply (rule my)
    done
qed

theorem get_square_around_point_f64_box_witness:
  "is_f64 0 \<and> (0::real) < 111111 \<and> (111111::real) < 2 ^ 1024
   \<and> is_f64 (cos_f64 (deg2rad_f64 0)) \<and> 0 < cos_f64 (deg2rad_f64 0)
   \<and> get_square_around_point_f64 deg2rad_f64 cos_f64 0 0 111111
       = Inr [Fin (- (1 / 2)), Fin (- (1 / 2)), Fin (1 / 2), Fin (1 / 2)]
   \<and> f64_le (Fin (- (1 / 2))) (Fin 0) \<and> f64_le (Fin 0) (Fin (1 / 2))
   \<and> is_f64 (1 / 2) \<and> f64_less (Fin (- (1 / 2))) (Fin (1 / 2))
   \<and> \<bar>(- (1 / 2) + 1 / 2) / 2 - 0\<bar> \<le> max \<bar>0\<bar> (1 / 2) / 2 ^ 53 + f64_tiny / 2"
proof -
  have a: "is_f64 0"
    unfolding is_f64_def by (rule f64_finite) simp_all
  have c: "(0::real) < 111111" by simp
  have d: "(111111::real) < 2 ^ 1024" by simp
  have one: "cos_f64 (deg2rad_f64 0) = 1"
    by (simp add: cos_f64_def deg2rad_f64_def f64_nearest_one)
  have e: "is_f64 (cos_f64 (deg2rad_f64 0))"
    unfolding is_f64_def one by (rule f64_finite [OF f64_nearest_one]) simp
  have f: "0 < cos_f64 (deg2rad_f64 0)" unfolding one by simp
  have half: "f64 (111111 / 2) = Fin (111111 / 2)"
    by (rule f64_finite [OF f64_nearest_half_of_111111]) simp
  have dv: "f64 111111 = Fin 111111"
    by (rule f64_finite [OF f64_nearest_111111]) simp
  have p: "f64 (1 / 2) = Fin (1 / 2)"
    by (rule f64_finite [OF f64_nearest_half]) simp
  have "f64_nearest (- (1 / 2)) = - (1 / 2)"
    by (simp only: f64_nearest_minus f64_nearest_half)
  then have n: "f64 (- (1 / 2)) = Fin (- (1 / 2))"
    by (rule f64_finite) simp
  have z: "is_f64 (1 / 2)" unfolding is_f64_def by (rule p)
  obtain half_side q h where
    hs: "f64 (111111 / 2) = Fin half_side"
    and q: "q = f64_div (Fin half_side) (f64 (m_to_deg * cos_f64 (deg2rad_f64 0)))"
    and h: "h = f64 (half_side / m_to_deg)"
    and r: "get_square_around_point_f64 deg2rad_f64 cos_f64 0 0 111111
              = Inr [f64_sub (Fin 0) q, f64_sub (Fin 0) h, f64_add (Fin 0) q, f64_add (Fin 0) h]"
    and lx: "f64_le (f64_sub (Fin 0) q) (Fin 0)" and ux: "f64_le (Fin 0) (f64_add (Fin 0) q)"
    and sx: "\<forall>q' z. q = Fin q' \<and> is_f64 z \<and> z \<noteq> 0 \<and> 0 - q' \<le> z \<and> z \<le> 0 + q'
                 \<longrightarrow> f64_less (f64_sub (Fin 0) q) (f64_add (Fin 0) q)"
    and mx: "\<forall>q' lo hi. q = Fin q' \<and> f64_sub (Fin 0) q = Fin lo \<and> f64_add (Fin 0) q = Fin hi
                 \<longrightarrow> \<bar>(lo + hi) / 2 - 0\<bar> \<le> max \<bar>0\<bar> q' / 2 ^ 53 + f64_tiny / 2"
    using get_square_around_point_f64_box
          [where np_cos = cos_f64 and np_deg2rad = deg2rad_f64 and lon = 0 and lat = 0
             and m = 111111, OF a a c d e f]
    by blast
  have hv: "half_side = 111111 / 2" using hs half by simp
  have qv: "q = Fin (1 / 2)"
    unfolding q hv one by (simp add: m_to_deg_def dv p [simplified])
  have hv2: "h = Fin (1 / 2)"
    unfolding h hv by (simp add: m_to_deg_def p [simplified])
  have lo: "f64_sub (Fin 0) (Fin (1 / 2)) = Fin (- (1 / 2))"
    by (simp add: f64_sub_def n [simplified])
  have hi: "f64_add (Fin 0) (Fin (1 / 2)) = Fin (1 / 2)"
    by (simp add: p [simplified])
  have r': "get_square_around_point_f64 deg2rad_f64 cos_f64 0 0 111111
       = Inr [Fin (- (1 / 2)), Fin (- (1 / 2)), Fin (1 / 2), Fin (1 / 2)]"
    using r unfolding qv hv2 lo hi .
  have lx': "f64_le (Fin (- (1 / 2))) (Fin 0)" using lx unfolding qv lo .
  have ux': "f64_le (Fin 0) (Fin (1 / 2))" using ux unfolding qv hi .
  have "q = Fin (1 / 2) \<and> is_f64 (1 / 2) \<and> (1 / 2 :: real) \<noteq> 0 \<and> 0 - 1 / 2 \<le> (1 / 2 :: real)
        \<and> (1 / 2 :: real) \<le> 0 + 1 / 2"
    using qv z by simp
  then have "f64_less (f64_sub (Fin 0) q) (f64_add (Fin 0) q)" using sx by blast
  then have s': "f64_less (Fin (- (1 / 2))) (Fin (1 / 2))" unfolding qv lo hi .
  have "q = Fin (1 / 2) \<and> f64_sub (Fin 0) q = Fin (- (1 / 2)) \<and> f64_add (Fin 0) q = Fin (1 / 2)"
    using qv lo hi by simp
  then have m': "\<bar>(- (1 / 2) + 1 / 2) / 2 - 0\<bar> \<le> max \<bar>0\<bar> (1 / 2) / 2 ^ 53 + f64_tiny / 2"
    using mx by blast
  show ?thesis
    by (intro conjI a c d e f r' lx' ux' z s' m')
qed






subsection \<open>\<^verbatim>\<open>get_bbox_of_given_size\<close>\<close>

text \<open>
  Claim C2, as stated: for every input box, target grid \<open>pix\<close> and resolution, when the
  dimension function does not give \<open>pix\<close> for the box, the function returns a box with
  the same minima and rescaled maxima. It does not for a box of Python floats 0.00003
  degrees wide and high at resolution 10: the rounding dimension function gives (0, 0),
  which is not the target (2, 2), and the division by the natural dimension raises.
\<close>

theorem get_bbox_of_given_size_zero_dimension_counterexample:
  "round_dimensions (BBox (0, 0, 3 / 100000, 3 / 100000)) 10 = (0, 0)
   \<and> get_bbox_of_given_size BBox round_dimensions
        [PyFloat 0, PyFloat 0, PyFloat (3 / 100000), PyFloat (3 / 100000)] (2, 2) 10
       = Inl ZeroDivisionError"
  by (simp add: get_bbox_of_given_size_def float_div_int_def py_div_def round_dimensions_3)

text \<open>
  Claim C2, amended. For every input box \<open>(x_min, y_min, x_max, y_max)\<close>, target grid
  \<open>pix\<close> and resolution: when the dimension function gives \<open>pix\<close> for the box, the box is
  returned unchanged; otherwise, when both natural dimensions are non-zero, the returned
  box has the same \<open>x_min\<close> and \<open>y_min\<close> and on each axis
  \<open>new_max = min + (old_max - min) * target_dim / natural_dim\<close>; otherwise, a natural
  dimension being 0, the division by it raises \<^verbatim>\<open>ZeroDivisionError\<close> when the
  coordinates are Python floats.
\<close>

theorem get_bbox_of_given_size_snaps:
  assumes "box_size = bbox_to_dimensions
             (mk_BBox (float_value x_min, float_value y_min, float_value x_max, float_value y_max))
             resolution"
  shows "(box_size = pix \<longrightarrow>
            get_bbox_of_given_size mk_BBox bbox_to_dimensions [x_min, y_min, x_max, y_max] pix resolution
            = Inr (Box (mk_BBox (float_value x_min, float_value y_min,
                                 float_value x_max, float_value y_max))))
       \<and> (box_size \<noteq> pix \<and> fst box_size \<noteq> 0 \<and> snd box_size \<noteq> 0 \<longrightarrow>
            get_bbox_of_given_size mk_BBox bbox_to_dimensions [x_min, y_min, x_max, y_max] pix resolution
            = Inr (Box (mk_BBox (float_value x_min, float_value y_min,
                     float_value x_min
                       + (float_value x_max - float_value x_min) * real_of_int (fst pix)
                           / real_of_int (fst box_size),
                     float_value y_min
                       + (float_value y_max - float_value y_min) * real_of_int (snd pix)
                           / real_of_int (snd box_size)))))
       \<and> (box_size \<noteq> pix \<and> (fst box_size = 0 \<or> snd box_size = 0)
            \<and> \<not> is_numpy x_min \<and> \<not> is_numpy y_min \<and> \<not> is_numpy x_max \<and> \<not> is_numpy y_max \<longrightarrow>
            get_bbox_of_given_size mk_BBox bbox_to_dimensions [x_min, y_min, x_max, y_max] pix resolution
            = Inl ZeroDivisionError)"
proof (intro conjI impI)
  assume "box_size = pix"
  then show "get_bbox_of_given_size mk_BBox bbox_to_dimensions [x_min, y_min, x_max, y_max] pix resolution
            = Inr (Box (mk_BBox (float_value x_min, float_value y_min,
                                 float_value x_max, float_value y_max)))"
    using assms by (intro get_bbox_of_given_size_unchanged) simp
next
  assume "box_size \<noteq> pix \<and> fst box_size \<noteq> 0 \<and> snd box_size \<noteq> 0"
  then show "get_bbox_of_given_size mk_BBox bbox_to_dimensions [x_min, y_min, x_max, y_max] pix resolution
            = Inr (Box (mk_BBox (float_value x_min, float_value y_min,
                     float_value x_min
                       + (float_value x_max - float_value x_min) * real_of_int (fst pix)
                           / real_of_int (fst box_size),
                     float_value y_min
                       + (float_value y_max - float_value y_min) * real_of_int (snd pix)
                           / real_of_int (snd box_size))))"
    using assms by (intro get_bbox_of_given_size_rescaled) simp_all
next
  assume "box_size \<noteq> pix \<and> (fst box_size = 0 \<or> snd box_size = 0)
            \<and> \<not> is_numpy x_min \<and> \<not> is_numpy y_min \<and> \<not> is_numpy x_max \<and> \<not> is_numpy y_max"
  then show "get_bbox_of_given_size mk_BBox bbox_to_dimensions [x_min, y_min, x_max, y_max] pix resolution
            = Inl ZeroDivisionError"
    using assms by (intro get_bbox_of_given_size_python_zero_dimension [where box_size = box_size]) simp_all
qed

theorem get_bbox_of_given_size_snaps_witness:
  "round_dimensions (BBox (0, 0, 9 / 50000, 9 / 50000)) 10 = (2, 2)
   \<and> get_bbox_of_given_size BBox round_dimensions
        [NpFloat64 0, PyFloat 0, NpFloat64 (9 / 50000), PyFloat (9 / 50000)] (2, 2) 10
       = Inr (Box (BBox (0, 0, 9 / 50000, 9 / 50000)))
   \<and> round_dimensions (BBox (0, 0, 9 / 100000, 9 / 100000)) 10 = (1, 1)
   \<and> get_bbox_of_given_size BBox round_dimensions
        [NpFloat64 0, PyFloat 0, NpFloat64 (9 / 100000), PyFloat (9 / 100000)] (2, 2) 10
       = Inr (Box (BBox (0, 0, 9 / 50000, 9 / 50000)))
   \<and> round_dimensions (BBox (0, 0, 3 / 100000, 9 / 100000)) 10 = (0, 1)
   \<and> get_bbox_of_given_size BBox round_dimensions
        [PyFloat 0, PyFloat 0, PyFloat (3 / 100000), PyFloat (9 / 100000)] (2, 2) 10
       = Inl ZeroDivisionError"
  using get_bbox_of_given_size_snaps
          [where box_size = "(2, 2)" and bbox_to_dimensions = round_dimensions and mk_BBox = BBox
             and x_min = "NpFloat64 0" and y_min = "PyFloat 0" and x_max = "NpFloat64 (9 / 50000)"
             and y_max = "PyFloat (9 / 50000)" and resolution = 10 and pix = "(2, 2)"]
        get_bbox_of_given_size_snaps
          [where box_size = "(1, 1)" and bbox_to_dimensions = round_dimensions and mk_BBox = BBox
             and x_min = "NpFloat64 0" and y_min = "PyFloat 0" and x_max = "NpFloat64 (9 / 100000)"
             and y_max = "PyFloat (9 / 100000)" and resolution = 10 and pix = "(2, 2)"]
        get_bbox_of_given_size_snaps
          [where box_size = "(0, 1)" and bbox_to_dimensions = round_dimensions and mk_BBox = BBox
             and x_min = "PyFloat 0" and y_min = "PyFloat 0" and x_max = "PyFloat (3 / 100000)"
             and y_max = "PyFloat (9 / 100000)" and resolution = 10 and pix = "(2, 2)"]
  by (simp add: round_dimensions_18 round_dimensions_9 round_dimensions_3_9)

text \<open>
  Claim C5: applying \<^verbatim>\<open>get_bbox_of_given_size\<close> twice with the same target grid and
  resolution yields a box whose dimensions equal the target grid, for a deterministic
  dimension function that is monotonic in the box extent. The function's documentation
  promises a box with the given number of pixels already after one application. The
  run below shows that the code delivers neither: with the rounding dimension function
  at resolution 10, the box 0.00006 degrees wide and high at the equator (about 6.7
  metres) has natural dimensions (1, 1); for the target (2, 2) the first application
  returns the box 0.00012 degrees wide, whose dimensions are still (1, 1), and the
  second application, on the coordinates of that box, returns the box 0.00024 degrees
  wide, whose dimensions are (3, 3). The rounding dimension function is deterministic
  and monotonic in the box extent (lemma \<open>round_dimensions_monotonic\<close>).
\<close>

theorem get_bbox_of_given_size_twice_misses_target:
  "round_dimensions (BBox (0, 0, 3 / 50000, 3 / 50000)) 10 = (1, 1)
   \<and> get_bbox_of_given_size BBox round_dimensions
        [PyFloat 0, PyFloat 0, PyFloat (3 / 50000), PyFloat (3 / 50000)] (2, 2) 10
       = Inr (Box (BBox (0, 0, 3 / 25000, 3 / 25000)))
   \<and> round_dimensions (BBox (0, 0, 3 / 25000, 3 / 25000)) 10 = (1, 1)
   \<and> get_bbox_of_given_size BBox round_dimensions
        [PyFloat 0, PyFloat 0, PyFloat (3 / 25000), PyFloat (3 / 25000)] (2, 2) 10
       = Inr (Box (BBox (0, 0, 3 / 12500, 3 / 12500)))
   \<and> round_dimensions (BBox (0, 0, 3 / 12500, 3 / 12500)) 10 = (3, 3)"
  by (simp add: get_bbox_of_given_size_def float_div_int_def py_div_def
      round_dimensions_6 round_dimensions_12 round_dimensions_24)

subsection \<open>\<^verbatim>\<open>get_field_pixels\<close>\<close>

text \<open>
  Claim C8. For every image (an array of at least two dimensions), bounding box and
  polygon, the mask returned by \<^verbatim>\<open>get_field_pixels\<close> has shape exactly
  \<open>(rows, cols)\<close>, the first two dimensions of the image, whatever the polygon.
\<close>

theorem get_field_pixels_shape:
  assumes "2 \<le> length (shape img)"
  shows "\<exists>mask'. get_field_pixels contains img bbox field = Inr mask'
           \<and> shape mask' = [shape img ! 0, shape img ! 1]
           \<and> length (elems mask') = shape img ! 0 * (shape img ! 1)"
proof -
  obtain mask' where m: "get_field_pixels contains img bbox field = Inr mask'"
    using get_field_pixels_Inr [OF assms, of contains bbox field] by simp
  show ?thesis
    using m get_field_pixels_result_shape [OF assms m] by blast
qed

theorem get_field_pixels_shape_witness:
  "2 \<le> length (shape \<lparr>shape = [2, 3, 4], elems = replicate 24 (0::real)\<rparr>)
   \<and> (\<exists>mask'. get_field_pixels rect_contains \<lparr>shape = [2, 3, 4], elems = replicate 24 (0::real)\<rparr>
                  (BBox (0, 0, 4, 4)) (BBox (0, 0, 2, 2)) = Inr mask'
          \<and> shape mask' = [2, 3] \<and> length (elems mask') = 6)"
  using get_field_pixels_shape
          [of "\<lparr>shape = [2, 3, 4], elems = replicate 24 (0::real)\<rparr>" rect_contains
              "BBox (0, 0, 4, 4)" "BBox (0, 0, 2, 2)"]
  by simp






text \<open>
  Claim C7. For every image shape \<open>(rows, cols)\<close>, every bounding box (its minimum not
  above its maximum on each axis) and every polygon that lies wholly outside the
  bounding box, every entry of the mask returned by \<^verbatim>\<open>get_field_pixels\<close> is false.
\<close>

theorem get_field_pixels_outside_polygon_all_false:
  assumes "2 \<le> length (shape img)"
    and "min_x bbox \<le> max_x bbox" and "min_y bbox \<le> max_y bbox"
    and "outside_extent contains field bbox"
  shows "\<exists>mask'. get_field_pixels contains img bbox field = Inr mask'
           \<and> shape mask' = [shape img ! 0, shape img ! 1]
           \<and> elems mask' = replicate (shape img ! 0 * (shape img ! 1)) False"
proof -
  obtain mask' where m: "get_field_pixels contains img bbox field = Inr mask'"
    using get_field_pixels_Inr [OF assms(1), of contains bbox field] by simp
  have "contains field (pixel_center bbox (shape img ! 0, shape img ! 1) (i, j)) = False"
    if "i < shape img ! 0" and "j < shape img ! 1" for i j
  proof -
    obtain x y where p: "pixel_center bbox (shape img ! 0, shape img ! 1) (i, j) = (x, y)"
      by (cases "pixel_center bbox (shape img ! 0, shape img ! 1) (i, j)")
    have "min_x bbox \<le> x \<and> x \<le> max_x bbox \<and> min_y bbox \<le> y \<and> y \<le> max_y bbox"
      using pixel_center_in_box [OF that assms(2,3)] unfolding p by simp
    then show ?thesis using assms(4) unfolding p outside_extent_def by simp
  qed
  then have "elems mask' = replicate (shape img ! 0 * (shape img ! 1)) False"
    by (rule get_field_pixels_constant [OF assms(1) m])
  then show ?thesis using m get_field_pixels_result_shape(1) [OF assms(1) m] by simp
qed

theorem get_field_pixels_outside_polygon_all_false_witness:
  "2 \<le> length (shape \<lparr>shape = [2, 2], elems = [1, 2, 3, 4 :: real]\<rparr>)
   \<and> min_x (BBox (0, 0, 4, 4)) \<le> max_x (BBox (0, 0, 4, 4))
   \<and> min_y (BBox (0, 0, 4, 4)) \<le> max_y (BBox (0, 0, 4, 4))
   \<and> outside_extent rect_contains (BBox (10, 10, 12, 12)) (BBox (0, 0, 4, 4))
   \<and> (\<exists>mask'. get_field_pixels rect_contains \<lparr>shape = [2, 2], elems = [1, 2, 3, 4 :: real]\<rparr>
                  (BBox (0, 0, 4, 4)) (BBox (10, 10, 12, 12)) = Inr mask'
          \<and> shape mask' = [2, 2] \<and> elems mask' = [False, False, False, False])"
proof -
  have c: "outside_extent rect_contains (BBox (10, 10, 12, 12)) (BBox (0, 0, 4, 4))"
    by (simp add: outside_extent_def rect_contains_def BBox_def)
  have b: "min_x (BBox (0, 0, 4, 4)) \<le> max_x (BBox (0, 0, 4, 4))"
    "min_y (BBox (0, 0, 4, 4)) \<le> max_y (BBox (0, 0, 4, 4))"
    by (simp_all add: BBox_def)
  have s: "2 \<le> length (shape \<lparr>shape = [2, 2], elems = [1, 2, 3, 4 :: real]\<rparr>)" by simp
  show ?thesis
    using get_field_pixels_outside_polygon_all_false [OF s b c] b c
    by (simp add: numeral_eq_Suc)
qed

text \<open>
  Claim C10. The mask returned by \<^verbatim>\<open>get_field_pixels\<close> depends only on the first two
  dimensions of the image, the bounding box and the polygon: two images whose first two
  dimensions are equal give identical results for the same bounding box and polygon,
  whatever their pixel values, element types or further dimensions.
\<close>

theorem get_field_pixels_depends_on_shape_only:
  assumes "take 2 (shape img1) = take 2 (shape img2)"
  shows "get_field_pixels contains img1 bbox field = get_field_pixels contains img2 bbox field"
proof -
  have "length (take 2 (shape img1)) = length (take 2 (shape img2))" using assms by simp
  then have len: "length (shape img1) < 2 \<longleftrightarrow> length (shape img2) < 2" by auto
  have "take 2 (shape img1) ! 0 = take 2 (shape img2) ! 0"
    and "take 2 (shape img1) ! 1 = take 2 (shape img2) ! 1" using assms by simp_all
  then have "shape img1 ! 0 = shape img2 ! 0" and "shape img1 ! 1 = shape img2 ! 1"
    by simp_all
  then show ?thesis using len by (simp add: get_field_pixels_def)
qed

theorem get_field_pixels_depends_on_shape_only_witness:
  "take 2 (shape \<lparr>shape = [2, 2], elems = [1, 2, 3, 4 :: real]\<rparr>)
     = take 2 (shape \<lparr>shape = [2, 2, 3], elems = replicate 12 (7::int)\<rparr>)
   \<and> get_field_pixels rect_contains \<lparr>shape = [2, 2], elems = [1, 2, 3, 4 :: real]\<rparr>
        (BBox (0, 0, 4, 4)) (BBox (0, 0, 2, 2))
     = get_field_pixels rect_contains \<lparr>shape = [2, 2, 3], elems = replicate 12 (7::int)\<rparr>
        (BBox (0, 0, 4, 4)) (BBox (0, 0, 2, 2))"
proof -
  have t: "take 2 (shape \<lparr>shape = [2, 2], elems = [1, 2, 3, 4 :: real]\<rparr>)
     = take 2 (shape \<lparr>shape = [2, 2, 3], elems = replicate 12 (7::int)\<rparr>)"
    by simp
  show ?thesis
    by (rule conjI [OF t get_field_pixels_depends_on_shape_only [OF t]])
qed

end
